theory Spec2Isabelle
  imports Complex_Main
begin

section \<open>Numbers\<close>

text \<open>
  The program computes in numpy's float64. Rounding is not modelled, except in the section
  on rounding below, for the one claim that depends on it: a finite float is a
  real number, and the arithmetic on finite values is the exact one. What is kept of
  IEEE arithmetic is what the program relies on where the reals have no answer: numpy
  does not raise on a division by zero or on the square root of a negative number, it
  returns inf, -inf or nan (and warns). \<open>NonFinite\<close> stands for any of these three, and
  every operation with a non-finite operand is non-finite again. (IEEE gives a finite
  quotient for a finite number divided by an infinity; the program never divides by a
  value that can be an infinity, its non-finite divisors are square roots of negative
  numbers, that is nan.)
\<close>

datatype float64 = Finite real | NonFinite

fun fadd :: "float64 \<Rightarrow> float64 \<Rightarrow> float64" where
  "fadd (Finite x) (Finite y) = Finite (x + y)"
| "fadd _ _ = NonFinite"

fun fmul :: "float64 \<Rightarrow> float64 \<Rightarrow> float64" where
  "fmul (Finite x) (Finite y) = Finite (x * y)"
| "fmul _ _ = NonFinite"

fun fdiv :: "float64 \<Rightarrow> float64 \<Rightarrow> float64" where
  "fdiv (Finite x) (Finite y) = (if y = 0 then NonFinite else Finite (x / y))"
| "fdiv _ _ = NonFinite"

fun fsqrt :: "float64 \<Rightarrow> float64" where
  "fsqrt (Finite x) = (if x < 0 then NonFinite else Finite (sqrt x))"
| "fsqrt NonFinite = NonFinite"

fun is_finite :: "float64 \<Rightarrow> bool" where
  "is_finite (Finite x) = True"
| "is_finite NonFinite = False"

section \<open>Errors\<close>

text \<open>
  An exception is a value. \<open>DimensionTooBig\<close> and \<open>InputDimension\<close> are the two
  \<open>raise ValueError\<close> of the program ("Dimension of input arguments is too big", "Input
  dimension has to be greater than 1 if Sigma is provided"). The others are raised by numpy
  inside a call the program makes:
  \<^item> \<open>ShapesNotAligned\<close>, the ValueError of \<open>beta.dot(Sigma_x)\<close> or of the in-place product
    that follows it when \<open>Sigma_x\<close> is not \<open>D\<close> by \<open>D\<close>;
  \<^item> \<open>IndexError\<close>, for an index past the end of an array;
  \<^item> \<open>CastingError\<close>, the UFuncTypeError (a TypeError) of a ufunc that is told to store a
    float result in an integer array (\<open>out=\<close> or an in-place operator);
  \<^item> \<open>SequenceInElement\<close>, the ValueError of \<open>a[j] = v\<close> where \<open>a\<close> is an array of floats and
    \<open>v\<close> an array of shape \<open>(1,)\<close>, in the versions of numpy that refuse it;
  \<^item> \<open>SeedOutOfRange\<close>, the ValueError of \<open>np.random.RandomState(seed)\<close> for an integer
    outside \<open>[0, 2**32 - 1]\<close>;
  \<^item> \<open>BetaShapeParameter\<close>, the ValueError of \<open>rand_state.beta(a, b, size)\<close> for \<open>a <= 0\<close>
    or \<open>b <= 0\<close>.
\<close>

datatype error =
    DimensionTooBig | InputDimension | ShapesNotAligned | IndexError
  | CastingError | SequenceInElement | SeedOutOfRange | BetaShapeParameter


section \<open>rand\_corr\_vine\<close>

text \<open>
  A two-dimensional array is the list of its rows. \<open>get2\<close> reads \<open>M[i, j]\<close> and
  \<open>set2\<close> is the assignment \<open>M[i, j] = v\<close>; every index the function uses is in range
  (\<open>i < j < d\<close>, \<open>k < i\<close>), so numpy's IndexError has no branch here.
\<close>

type_synonym 'a array2 = "'a list list"

definition get2 :: "'a array2 \<Rightarrow> nat \<Rightarrow> nat \<Rightarrow> 'a" where
  "get2 M i j = M ! i ! j"

definition set2 :: "'a array2 \<Rightarrow> nat \<Rightarrow> nat \<Rightarrow> 'a \<Rightarrow> 'a array2" where
  "set2 M i j v = M[i := (M ! i)[j := v]]"

text \<open>
  \<open>np.empty((d, d))\<close> is uninitialised memory: its content is whatever \<open>junk\<close> says.
\<close>

definition np_empty :: "nat \<Rightarrow> (nat \<Rightarrow> nat \<Rightarrow> real) \<Rightarrow> real array2" where
  "np_empty d junk = map (\<lambda>i. map (\<lambda>j. junk i j) [0..<d]) [0..<d]"

definition np_eye :: "nat \<Rightarrow> float64 array2" where
  "np_eye d = map (\<lambda>i. map (\<lambda>j. if i = j then Finite 1 else Finite 0) [0..<d]) [0..<d]"

text \<open>
  \<open>np.triu_indices(d, 1)\<close>: the index pairs \<open>i < j < d\<close> in row-major order (numpy
  returns the two coordinate arrays; they are zipped here).
\<close>

definition triu_indices :: "nat \<Rightarrow> (nat \<times> nat) list" where
  "triu_indices d = concat (map (\<lambda>i. map (\<lambda>j. (i, j)) [Suc i..<d]) [0..<d])"

text \<open>\<open>P[uinds] = betas\<close> and \<open>P.T[uinds] = betas\<close>: one assignment for each index pair.\<close>

fun put :: "real array2 \<Rightarrow> (nat \<times> nat) list \<Rightarrow> real list \<Rightarrow> real array2" where
  "put P ((i, j) # ps) (b # bs) = put (set2 P i j b) ps bs"
| "put P _ _ = P"

fun putT :: "real array2 \<Rightarrow> (nat \<times> nat) list \<Rightarrow> real list \<Rightarrow> real array2" where
  "putT P ((i, j) # ps) (b # bs) = putT (set2 P j i b) ps bs"
| "putT P _ _ = P"

text \<open>
  The random generator. \<open>RandomState\<close> builds a generator from a seed, \<open>beta_draw\<close> is
  \<open>rand_state.beta(alpha, beta, size=n)\<close> and \<open>permutation\<close> is
  \<open>rand_state.permutation(d)\<close>; both return what they drew and the generator's next state.
  numpy is not part of the program: the three functions are parameters. They say what
  numpy does with arguments it accepts; the checks it makes on the seed and on the shape
  parameters are written out below.
\<close>

record 'r numpy_random =
  RandomState :: "int option \<Rightarrow> 'r"
  beta_draw :: "'r \<Rightarrow> real \<Rightarrow> real \<Rightarrow> nat \<Rightarrow> real list \<times> 'r"
  permutation :: "'r \<Rightarrow> nat \<Rightarrow> nat list \<times> 'r"

datatype 'r seed = Generator 'r | Seed "int option"

text \<open>The innermost loop, \<open>for k in range(i - 1, -1, -1)\<close>, on the accumulator \<open>cur\<close>.\<close>

definition vine_step :: "real array2 \<Rightarrow> nat \<Rightarrow> nat \<Rightarrow> nat \<Rightarrow> float64 \<Rightarrow> float64" where
  "vine_step P i j k cur =
     fadd (fmul cur (fsqrt (Finite ((1 - get2 P i k) * (1 - get2 P j k)))))
          (Finite (get2 P k i * get2 P k j))"

definition vine_cur :: "real array2 \<Rightarrow> nat \<Rightarrow> nat \<Rightarrow> float64" where
  "vine_cur P i j = fold (vine_step P i j) (rev [0..<i]) (Finite (get2 P i j))"

text \<open>The loop \<open>for j in range(i + 1, d)\<close> and the loop \<open>for i in range(d - 1)\<close>.\<close>

definition vine_row :: "real array2 \<Rightarrow> nat \<Rightarrow> nat \<Rightarrow> float64 array2 \<Rightarrow> float64 array2" where
  "vine_row P d i C =
     fold (\<lambda>j C. let cur = vine_cur P i j in set2 (set2 C i j cur) j i cur) [Suc i..<d] C"

definition vine_loops :: "real array2 \<Rightarrow> nat \<Rightarrow> float64 array2 \<Rightarrow> float64 array2" where
  "vine_loops P d C = fold (vine_row P d) [0..<d - 1] C"

text \<open>\<open>C[np.ix_(perm, perm)]\<close>.\<close>

definition np_ix :: "'a array2 \<Rightarrow> nat list \<Rightarrow> 'a array2" where
  "np_ix C perm = map (\<lambda>a. map (\<lambda>b. get2 C a b) perm) perm"

text \<open>
  The partial correlations as the function stores them: the draws scaled to
  \<open>[pmin, pmax]\<close> in the upper triangle, their squares in the lower triangle.
\<close>

definition scale_betas :: "real \<Rightarrow> real \<Rightarrow> real list \<Rightarrow> real list" where
  "scale_betas pmin pmax betas = map (\<lambda>b. b + pmin) (map (\<lambda>b. b * (pmax - pmin)) betas)"

definition fill_P :: "nat \<Rightarrow> (nat \<Rightarrow> nat \<Rightarrow> real) \<Rightarrow> real list \<Rightarrow> real array2" where
  "fill_P d junk betas =
     (let P = np_empty d junk;
          uinds = triu_indices d;
          P = put P uinds betas;
          betas = map (\<lambda>b. b * b) betas
      in putT P uinds betas)"

text \<open>
  \<open>seed\<close> is a generator, which is used as it is, or an integer or None, from which
  a generator is built. numpy builds one from None and from an integer in
  \<open>[0, 2**32 - 1]\<close> and raises ValueError for any other integer.
\<close>

definition seed_in_range :: "int option \<Rightarrow> bool" where
  "seed_in_range s = (case s of None \<Rightarrow> True | Some n \<Rightarrow> 0 \<le> n \<and> n \<le> 2 ^ 32 - 1)"

definition get_rand_state :: "'r numpy_random \<Rightarrow> 'r seed \<Rightarrow> error + 'r" where
  "get_rand_state np seed =
     (case seed of
        Generator g \<Rightarrow> Inr g
      | Seed s \<Rightarrow> if seed_in_range s then Inr (RandomState np s) else Inl SeedOutOfRange)"

text \<open>
  \<open>rand_state.beta(alpha, beta, size=n)\<close>: numpy checks the two shape parameters before it
  draws, whatever \<open>n\<close> is, and raises ValueError unless both are positive.
\<close>

definition rand_state_beta ::
    "'r numpy_random \<Rightarrow> 'r \<Rightarrow> real \<Rightarrow> real \<Rightarrow> nat \<Rightarrow> error + real list \<times> 'r" where
  "rand_state_beta np rand_state alpha beta n =
     (if alpha \<le> 0 \<or> beta \<le> 0 then Inl BetaShapeParameter
      else Inr (beta_draw np rand_state alpha beta n))"

text \<open>
  The function returns \<open>C\<close>; the generator's last state is returned with it, since the
  caller's generator has advanced. \<open>d\<close> is a natural number.
\<close>

definition rand_corr_vine ::
    "'r numpy_random \<Rightarrow> (nat \<Rightarrow> nat \<Rightarrow> real) \<Rightarrow>
     nat \<Rightarrow> real \<Rightarrow> real \<Rightarrow> real \<Rightarrow> real \<Rightarrow> 'r seed \<Rightarrow> error + float64 array2 \<times> 'r" where
  "rand_corr_vine np junk d alpha beta pmin pmax seed =
     (case get_rand_state np seed of
        Inl e \<Rightarrow> Inl e
      | Inr rand_state \<Rightarrow>
          (case rand_state_beta np rand_state alpha beta (length (triu_indices d)) of
             Inl e \<Rightarrow> Inl e
           | Inr (betas, rand_state) \<Rightarrow>
               (let P = fill_P d junk (scale_betas pmin pmax betas);
                    C = vine_loops P d (np_eye d);
                    (perm, rand_state) = permutation np rand_state d
                in Inr (np_ix C perm, rand_state))))"

subsection \<open>What the loops compute\<close>

text \<open>
  The arrays of the function are square: \<open>d\<close> rows of length \<open>d\<close>. \<open>in_range\<close> says
  that a list of index pairs stays inside such an array.
\<close>

definition square_arr :: "nat \<Rightarrow> 'a array2 \<Rightarrow> bool" where
  "square_arr d M = (length M = d \<and> list_all (\<lambda>r. length r = d) M)"

definition in_range :: "nat \<Rightarrow> (nat \<times> nat) list \<Rightarrow> bool" where
  "in_range d ps = list_all (\<lambda>(i, j). i < d \<and> j < d) ps"

text \<open>
  \<open>partial_corr d ps a b\<close> is the partial correlation sampled for the pair \<open>a < b\<close>: the
  entry of \<open>ps\<close> at the position of \<open>(a, b)\<close> among the index pairs.
\<close>

definition partial_corr :: "nat \<Rightarrow> real list \<Rightarrow> nat \<Rightarrow> nat \<Rightarrow> real" where
  "partial_corr d ps a b =
     (case map_of (zip (triu_indices d) ps) (a, b) of Some v \<Rightarrow> v | None \<Rightarrow> 0)"

text \<open>
  The recursion of the vine method on the sampled partial correlations \<open>p\<close> alone:
  for \<open>k\<close> from \<open>i - 1\<close> down to \<open>0\<close>,
  \<open>cur = cur * sqrt ((1 - p k i ^ 2) * (1 - p k j ^ 2)) + p k i * p k j\<close>.
  \<open>corr_rec p i j n cur\<close> runs the steps \<open>k = n - 1, \<dots>, 0\<close>.
\<close>

definition corr_step :: "(nat \<Rightarrow> nat \<Rightarrow> real) \<Rightarrow> nat \<Rightarrow> nat \<Rightarrow> nat \<Rightarrow> float64 \<Rightarrow> float64" where
  "corr_step p i j k cur =
     fadd (fmul cur (fsqrt (Finite ((1 - p k i * p k i) * (1 - p k j * p k j)))))
          (Finite (p k i * p k j))"

fun corr_rec :: "(nat \<Rightarrow> nat \<Rightarrow> real) \<Rightarrow> nat \<Rightarrow> nat \<Rightarrow> nat \<Rightarrow> float64 \<Rightarrow> float64" where
  "corr_rec p i j 0 cur = cur"
| "corr_rec p i j (Suc k) cur = corr_rec p i j k (corr_step p i j k cur)"

text \<open>The seeds numpy accepts: a generator, None, or an integer in range.\<close>

definition seed_accepted :: "'r seed \<Rightarrow> bool" where
  "seed_accepted seed = (case seed of Generator g \<Rightarrow> True | Seed s \<Rightarrow> seed_in_range s)"

text \<open>A finite value in \<open>[-1, 1]\<close>.\<close>

definition unit_val :: "float64 \<Rightarrow> bool" where
  "unit_val c = (case c of Finite v \<Rightarrow> - 1 \<le> v \<and> v \<le> 1 | NonFinite \<Rightarrow> False)"

text \<open>
  Concrete inputs for the examples: six partial correlations for \<open>d = 4\<close>, in the order
  \<open>(0,1), (0,2), (0,3), (1,2), (1,3), (2,3)\<close>, and a deterministic generator whose draws
  are all \<open>3/4\<close> and whose permutation reverses the indices.
\<close>

definition ps0 :: "real list" where
  "ps0 = [1/2, 1/2, 0, 1/2, 0, 0]"

definition example_np :: "nat numpy_random" where
  "example_np =
     \<lparr>RandomState = (\<lambda>s. 0),
      beta_draw = (\<lambda>r a b n. (replicate n (3/4), Suc r)),
      permutation = (\<lambda>r d. (rev [0..<d], Suc r))\<rparr>"

section \<open>Calibration of the input distribution\<close>

subsection \<open>Arrays\<close>

text \<open>
  A numpy array is its shape and its entries in row-major order; a scalar has the empty
  shape. The entries of a well-formed array are as many as the product of the shape.
  The arguments of the two functions are arrays of reals, their results arrays of
  \<open>float64\<close>; a result with the empty shape is a plain scalar (\<open>out[()]\<close>).

  \<open>np.asarray\<close> gives an argument made of Python integers the dtype int64 and one made
  of floats the dtype float64. The entries are reals in both cases; the dtype of \<open>beta\<close>
  and the dtype of \<open>Sigma_x\<close> are passed beside the arrays (\<open>bdt\<close>, \<open>sdt\<close>; \<open>sdt\<close> is not read
  when \<open>Sigma_x\<close> is None), since numpy refuses to store a float result in an integer
  array. \<open>result_type\<close> is the dtype of a product of two arrays.
\<close>

datatype dtype = Int64 | Float64

definition result_type :: "dtype \<Rightarrow> dtype \<Rightarrow> dtype" where
  "result_type a b = (if a = Int64 \<and> b = Int64 then Int64 else Float64)"

record 'a ndarray =
  shape :: "nat list"
  data :: "'a list"

definition wf_ndarray :: "'a ndarray \<Rightarrow> bool" where
  "wf_ndarray a = (length (data a) = prod_list (shape a))"

definition ndim :: "'a ndarray \<Rightarrow> nat" where
  "ndim a = length (shape a)"

definition scalar :: "'a \<Rightarrow> 'a ndarray" where
  "scalar x = \<lparr>shape = [], data = [x]\<rparr>"

definition vector :: "'a list \<Rightarrow> 'a ndarray" where
  "vector xs = \<lparr>shape = [length xs], data = xs\<rparr>"

text \<open>The \<open>J\<close> by \<open>D\<close> array with the given rows, each of length \<open>D\<close>.\<close>

definition matrix :: "nat \<Rightarrow> 'a list list \<Rightarrow> 'a ndarray" where
  "matrix D rows = \<lparr>shape = [length rows, D], data = concat rows\<rparr>"

text \<open>
  The vectors along the last axis of an array of rank at least one: what
  \<open>np.sum(..., axis=-1)\<close> and \<open>beta.dot(Sigma_x)\<close> work on.
\<close>

definition rows_of :: "'a ndarray \<Rightarrow> 'a list list" where
  "rows_of a =
     (let D = last (shape a)
      in map (\<lambda>r. take D (drop (r * D) (data a))) [0..<prod_list (butlast (shape a))])"

text \<open>\<open>np.squeeze\<close> drops the axes of length one; the entries stay.\<close>

definition squeeze :: "'a ndarray \<Rightarrow> 'a ndarray" where
  "squeeze a = \<lparr>shape = filter (\<lambda>n. n \<noteq> 1) (shape a), data = data a\<rparr>"

subsection \<open>Constants\<close>

definition R_SQUARED :: real where "R_SQUARED = 0.5"
definition P_0 :: real where "P_0 = 0.2"
definition GAMMA_0 :: real where "GAMMA_0 = 0.01"
definition SIGMA_F0 :: real where "SIGMA_F0 = 0.25"

text \<open>
  \<open>scipy.special.logit\<close> is \<open>ln (p / (1 - p))\<close>. \<open>scipy.special.erfinv\<close>, the inverse of
  the error function, is a parameter of everything that uses it.
\<close>

definition logit :: "real \<Rightarrow> real" where
  "logit p = ln (p / (1 - p))"

definition ERFINVGAMMA0 :: "(real \<Rightarrow> real) \<Rightarrow> real" where
  "ERFINVGAMMA0 erfinv = erfinv (2 * GAMMA_0 - 1)"

definition LOGITP0 :: real where
  "LOGITP0 = logit P_0"

definition DELTA_MAX :: "(real \<Rightarrow> real) \<Rightarrow> real" where
  "DELTA_MAX erfinv = sqrt 2 * SIGMA_F0 * ERFINVGAMMA0 erfinv - LOGITP0"

subsection \<open>Sums along the last axis\<close>

text \<open>
  \<open>sum_sq b\<close> is \<open>np.sum(np.square(b))\<close>. \<open>dot_row b S\<close> is \<open>b.dot(S)\<close> for a vector
  \<open>b\<close> and \<open>quad_form S b\<close> is \<open>np.sum(b.dot(S) * b)\<close>. \<open>Sigma_x\<close> is a two-dimensional
  array, the list of its rows; numpy accepts it in these expressions when it is \<open>D\<close> by
  \<open>D\<close> (\<open>conforms\<close>) and raises otherwise.
\<close>

definition sum_sq :: "real list \<Rightarrow> real" where
  "sum_sq b = sum_list (map (\<lambda>x. x * x) b)"

definition dot_row :: "real list \<Rightarrow> real array2 \<Rightarrow> real list" where
  "dot_row b S = map (\<lambda>j. sum_list (map2 (\<lambda>x r. x * r ! j) b S)) [0..<length b]"

definition quad_form :: "real array2 \<Rightarrow> real list \<Rightarrow> real" where
  "quad_form S b = sum_list (map2 (\<lambda>x y. x * y) (dot_row b S) b)"

definition conforms :: "nat \<Rightarrow> real array2 \<Rightarrow> bool" where
  "conforms D S = (length S = D \<and> list_all (\<lambda>r. length r = D) S)"

text \<open>The sum of squares of a row, or its quadratic form when \<open>Sigma_x\<close> is given.\<close>

definition row_q :: "real array2 option \<Rightarrow> real list \<Rightarrow> real" where
  "row_q Sigma_x b = (case Sigma_x of None \<Rightarrow> sum_sq b | Some S \<Rightarrow> quad_form S b)"

definition sigma_conforms :: "nat \<Rightarrow> real array2 option \<Rightarrow> bool" where
  "sigma_conforms D Sigma_x = (case Sigma_x of None \<Rightarrow> True | Some S \<Rightarrow> conforms D S)"

text \<open>
  The dtype of \<open>np.sum(np.square(beta), axis=-1)\<close>, which is that of \<open>beta\<close>, and of the
  sum of \<open>beta.dot(Sigma_x)\<close> times \<open>beta\<close>, which is float64 unless both arrays hold integers.
\<close>

definition row_q_dtype :: "dtype \<Rightarrow> dtype \<Rightarrow> real array2 option \<Rightarrow> dtype" where
  "row_q_dtype bdt sdt Sigma_x = (case Sigma_x of None \<Rightarrow> bdt | Some S \<Rightarrow> result_type bdt sdt)"

text \<open>
  The check both functions start with:
  \<open>Sigma_x is not None and (beta.ndim == 0 or beta.shape[-1] <= 1)\<close>.
\<close>

definition sigma_with_1d :: "real ndarray \<Rightarrow> real array2 option \<Rightarrow> bool" where
  "sigma_with_1d beta Sigma_x = (Sigma_x \<noteq> None \<and> (ndim beta = 0 \<or> last (shape beta) \<le> 1))"

subsection \<open>calc\_input\_param\_lin\_reg\<close>

text \<open>
  The multidimensional branch on one row, whose sum of squares or quadratic form is \<open>q\<close>:
  \<open>out *= 1 - R_SQUARED\<close>, \<open>np.divide(R_SQUARED, out, out=out)\<close>, \<open>np.sqrt(out, out=out)\<close>,
  \<open>out *= sigma\<close>.
\<close>

definition lin_reg_row :: "real \<Rightarrow> real \<Rightarrow> float64" where
  "lin_reg_row sigma q =
     fmul (fsqrt (fdiv (Finite R_SQUARED) (Finite (q * (1 - R_SQUARED))))) (Finite sigma)"

text \<open>
  In the one-dimensional branch \<open>beta[:, 0]\<close> of a \<open>J\<close> by \<open>1\<close> array and \<open>beta[0]\<close> of an
  array of length one have the entries of \<open>beta\<close>; only the shape changes. \<open>sigma\<close> is a
  float, as documented. \<open>out\<close> has the dtype of \<open>np.abs(beta)\<close> in the first branch and of the
  sum in the second, and the first operation with \<open>out\<close> as its output
  (\<open>np.divide(..., out, out=out)\<close>, \<open>out *= 1 - R_SQUARED\<close>) computes floats: numpy raises
  when \<open>out\<close> is an integer array.
\<close>

definition calc_input_param_lin_reg ::
    "dtype \<Rightarrow> dtype \<Rightarrow> real ndarray \<Rightarrow> real \<Rightarrow> real array2 option \<Rightarrow> error + float64 ndarray" where
  "calc_input_param_lin_reg bdt sdt beta sigma Sigma_x =
     (if sigma_with_1d beta Sigma_x then Inl InputDimension
      else if ndim beta = 0 \<or> last (shape beta) = 1 then
        (let shp = (if ndim beta = 2 then [hd (shape beta)]
                    else if ndim beta = 1 then []
                    else shape beta);
             out = map abs (data beta)
         in if bdt = Int64 then Inl CastingError
            else Inr \<lparr>shape = shp,
                      data = map (\<lambda>x. fdiv (Finite (sqrt (R_SQUARED / (1 - R_SQUARED)) * sigma))
                                           (Finite x)) out\<rparr>)
      else if \<not> sigma_conforms (last (shape beta)) Sigma_x then Inl ShapesNotAligned
      else if row_q_dtype bdt sdt Sigma_x = Int64 then Inl CastingError
      else Inr \<lparr>shape = butlast (shape beta),
                data = map (\<lambda>b. lin_reg_row sigma (row_q Sigma_x b)) (rows_of beta)\<rparr>)"

subsection \<open>calc\_input\_param\_classification\<close>

text \<open>
  The number of groups, and the flag that is set on the branch \<open>J = 1\<close> (the only branch
  that reads it).
\<close>

definition group_count :: "real ndarray \<Rightarrow> real ndarray \<Rightarrow> nat" where
  "group_count alpha beta =
     (if ndim alpha = 1 \<and> hd (shape alpha) \<noteq> 1 then hd (shape alpha)
      else if ndim beta = 2 \<and> hd (shape beta) \<noteq> 1 then hd (shape beta)
      else 1)"

definition scalar_output :: "real ndarray \<Rightarrow> real ndarray \<Rightarrow> bool" where
  "scalar_output alpha beta = (ndim alpha = 0 \<and> ndim beta < 2)"

text \<open>
  A single group. \<open>alpha\<close> is the scalar \<open>np.squeeze(alpha)[()]\<close> and \<open>beta\<close> is
  \<open>np.squeeze(beta)\<close>, of rank one or zero. The result is the pair \<open>mu_x\<close>, \<open>sigma_x\<close>.
\<close>

definition single_group ::
    "(real \<Rightarrow> real) \<Rightarrow> real \<Rightarrow> real ndarray \<Rightarrow> real array2 option \<Rightarrow> error + float64 \<times> float64" where
  "single_group erfinv alpha beta Sigma_x =
     (if ndim beta = 1 \<and> \<not> sigma_conforms (hd (shape beta)) Sigma_x then Inl ShapesNotAligned
      else if \<bar>alpha\<bar> < DELTA_MAX erfinv then
        (let mu_x = Finite 0;
             ssbeta = (if ndim beta = 1 then fsqrt (Finite (2 * row_q Sigma_x (data beta)))
                       else Finite (sqrt 2 * \<bar>hd (data beta)\<bar>));
             sigma_x = fdiv (Finite (LOGITP0 + \<bar>alpha\<bar>)) (fmul (Finite (ERFINVGAMMA0 erfinv)) ssbeta)
         in Inr (mu_x, sigma_x))
      else
        (let mu_x = (if alpha > 0
                     then fdiv (Finite (DELTA_MAX erfinv - alpha)) (Finite (sum_list (data beta)))
                     else fdiv (Finite (- DELTA_MAX erfinv - alpha)) (Finite (sum_list (data beta))));
             ssbeta = (if ndim beta = 1 then fsqrt (Finite (row_q Sigma_x (data beta)))
                       else Finite \<bar>hd (data beta)\<bar>);
             sigma_x = fdiv (Finite SIGMA_F0) ssbeta
         in Inr (mu_x, sigma_x)))"

text \<open>
  Several groups with a common \<open>alpha\<close>: \<open>beta\<close> is \<open>J\<close> by \<open>D\<close> and everything is
  computed on whole arrays, in place. \<open>beta[:, 0]\<close> of a \<open>J\<close> by \<open>1\<close> array has the
  entries of \<open>beta\<close>. Two of the operations in place compute floats into an array that has
  the dtype of the sums of \<open>beta\<close>, and numpy raises when that is an integer dtype:
  \<open>np.sqrt(sigma_x, out=sigma_x)\<close> where the mean is not shifted and \<open>D\<close> is not one, and
  \<open>np.divide(..., mu_x, out=mu_x)\<close> where the mean is shifted.
\<close>

definition common_alpha ::
    "(real \<Rightarrow> real) \<Rightarrow> dtype \<Rightarrow> dtype \<Rightarrow> nat \<Rightarrow> real \<Rightarrow> real ndarray \<Rightarrow> real array2 option \<Rightarrow>
     error + float64 ndarray \<times> float64 ndarray" where
  "common_alpha erfinv bdt sdt J alpha beta Sigma_x =
     (let D = shape beta ! 1 in
      if \<bar>alpha\<bar> < DELTA_MAX erfinv then
        (let mu_x = replicate J (Finite 0) in
         if D \<noteq> 1 \<and> \<not> sigma_conforms D Sigma_x then Inl ShapesNotAligned
         else if D \<noteq> 1 \<and> row_q_dtype bdt sdt Sigma_x = Int64 then Inl CastingError
         else
           (let sigma_x = (if D \<noteq> 1
                           then map (\<lambda>b. fsqrt (Finite (row_q Sigma_x b * 2))) (rows_of beta)
                           else map (\<lambda>x. Finite (sqrt 2 * \<bar>x\<bar>)) (data beta));
                sigma_x = map (\<lambda>s. fmul s (Finite (ERFINVGAMMA0 erfinv))) sigma_x;
                sigma_x = map (\<lambda>s. fdiv (Finite (LOGITP0 + \<bar>alpha\<bar>)) s) sigma_x
            in Inr (\<lparr>shape = [J], data = mu_x\<rparr>, \<lparr>shape = [hd (shape beta)], data = sigma_x\<rparr>)))
      else
        (let mu_x = map (\<lambda>b. Finite (sum_list b)) (rows_of beta) in
         if bdt = Int64 then Inl CastingError
         else
           (let mu_x = (if alpha > 0
                        then map (\<lambda>m. fdiv (Finite (DELTA_MAX erfinv - alpha)) m) mu_x
                        else map (\<lambda>m. fdiv (Finite (- DELTA_MAX erfinv - alpha)) m) mu_x)
            in if D \<noteq> 1 \<and> \<not> sigma_conforms D Sigma_x then Inl ShapesNotAligned
               else
                 (let sigma_x = (if D \<noteq> 1
                                 then map (\<lambda>b. fsqrt (Finite (row_q Sigma_x b))) (rows_of beta)
                                 else map (\<lambda>x. Finite \<bar>x\<bar>) (data beta));
                      sigma_x = map (\<lambda>s. fdiv (Finite SIGMA_F0) s) sigma_x
                  in Inr (\<lparr>shape = [hd (shape beta)], data = mu_x\<rparr>,
                          \<lparr>shape = [hd (shape beta)], data = sigma_x\<rparr>)))))"

text \<open>
  The body of the loops \<open>for j in range(J)\<close> of the two other branches, for one group:
  its \<open>alpha[j]\<close>, the sum \<open>sbeta\<close> of its slopes, their magnitude \<open>ssbeta\<close> and
  \<open>divisor = np.sqrt(2) * ERFINVGAMMA0 * ssbeta\<close>. \<open>mu_x\<close> starts as \<open>np.zeros(J)\<close>, so an
  entry that is not assigned is zero.
\<close>

definition threshold_group ::
    "(real \<Rightarrow> real) \<Rightarrow> real \<Rightarrow> real \<Rightarrow> float64 \<Rightarrow> float64 \<Rightarrow> float64 \<times> float64" where
  "threshold_group erfinv alpha_j sbeta ssbeta divisor =
     (if \<bar>alpha_j\<bar> < DELTA_MAX erfinv
      then (Finite 0, fdiv (Finite (LOGITP0 + \<bar>alpha_j\<bar>)) divisor)
      else ((if alpha_j > 0
             then fdiv (Finite (DELTA_MAX erfinv - alpha_j)) (Finite sbeta)
             else fdiv (Finite (- DELTA_MAX erfinv - alpha_j)) (Finite sbeta)),
            fdiv (Finite SIGMA_F0) ssbeta))"

text \<open>
  Several groups with a common \<open>beta\<close>, of rank one: \<open>alpha\<close> has length \<open>J\<close>. When \<open>beta\<close>
  has a single entry, \<open>ssbeta = np.abs(beta)\<close> and \<open>divisor\<close> are not scalars but arrays of
  shape \<open>(1,)\<close>, and every pass of the loop stores such an array in the element
  \<open>sigma_x[j]\<close>. Older versions of numpy store the entry of the array (from 1.25 on with a
  DeprecationWarning), newer ones raise ValueError; \<open>strict\<close> says that the numpy in use
  is one that raises. The first pass of the loop raises then, so that \<open>J = 0\<close>, where the
  loop does not run, returns the two empty arrays with either numpy.
\<close>

definition common_beta ::
    "(real \<Rightarrow> real) \<Rightarrow> bool \<Rightarrow> nat \<Rightarrow> real ndarray \<Rightarrow> real ndarray \<Rightarrow> real array2 option \<Rightarrow>
     error + float64 ndarray \<times> float64 ndarray" where
  "common_beta erfinv strict J alpha beta Sigma_x =
     (let D = hd (shape beta) in
      if D \<noteq> 1 \<and> \<not> sigma_conforms D Sigma_x then Inl ShapesNotAligned
      else
        (let sbeta = sum_list (data beta);
             ssbeta = (if D \<noteq> 1 then fsqrt (Finite (row_q Sigma_x (data beta)))
                       else Finite \<bar>hd (data beta)\<bar>);
             divisor = fmul (Finite (sqrt 2 * ERFINVGAMMA0 erfinv)) ssbeta
         in if D = 1 \<and> strict \<and> 0 < J then Inl SequenceInElement
            else
              (let groups = map (\<lambda>j. threshold_group erfinv (data alpha ! j) sbeta ssbeta divisor)
                                [0..<J]
               in Inr (\<lparr>shape = [J], data = map fst groups\<rparr>,
                       \<lparr>shape = [J], data = map snd groups\<rparr>))))"

text \<open>
  Several groups, \<open>alpha\<close> of length \<open>J\<close> and \<open>beta\<close> a matrix: the loop reads row \<open>j\<close> of
  \<open>beta\<close> for every \<open>j < J\<close>, and numpy raises IndexError when \<open>beta\<close> has fewer rows.
\<close>

definition both_varying ::
    "(real \<Rightarrow> real) \<Rightarrow> nat \<Rightarrow> real ndarray \<Rightarrow> real ndarray \<Rightarrow> real array2 option \<Rightarrow>
     error + float64 ndarray \<times> float64 ndarray" where
  "both_varying erfinv J alpha beta Sigma_x =
     (let D = shape beta ! 1 in
      if D \<noteq> 1 \<and> \<not> sigma_conforms D Sigma_x then Inl ShapesNotAligned
      else
        (let sbeta = map sum_list (rows_of beta);
             ssbeta = (if D \<noteq> 1
                       then map (\<lambda>b. fsqrt (Finite (row_q Sigma_x b))) (rows_of beta)
                       else map (\<lambda>x. Finite \<bar>x\<bar>) (data beta));
             divisor = map (\<lambda>s. fmul (Finite (sqrt 2 * ERFINVGAMMA0 erfinv)) s) ssbeta
         in if hd (shape beta) < J then Inl IndexError
            else
              (let groups = map (\<lambda>j. threshold_group erfinv (data alpha ! j)
                                        (sbeta ! j) (ssbeta ! j) (divisor ! j)) [0..<J]
               in Inr (\<lparr>shape = [J], data = map fst groups\<rparr>,
                       \<lparr>shape = [J], data = map snd groups\<rparr>))))"

text \<open>
  The function. On the branch \<open>J = 1\<close> the results are plain scalars when
  \<open>scalar_output\<close> holds and arrays of length one otherwise. On the other branch
  \<open>beta[0]\<close> of a \<open>1\<close> by \<open>D\<close> array and \<open>beta[np.newaxis]\<close> of a scalar keep the entries.
  The dtype of \<open>alpha\<close> plays no part: no result is stored in an array made from \<open>alpha\<close>.
\<close>

definition calc_input_param_classification ::
    "(real \<Rightarrow> real) \<Rightarrow> bool \<Rightarrow> dtype \<Rightarrow> dtype \<Rightarrow> real ndarray \<Rightarrow> real ndarray \<Rightarrow> real array2 option \<Rightarrow>
     error + float64 ndarray \<times> float64 ndarray" where
  "calc_input_param_classification erfinv strict bdt sdt alpha beta Sigma_x =
     (if ndim alpha > 1 \<or> ndim beta > 2 then Inl DimensionTooBig
      else
        (let J = group_count alpha beta in
         if sigma_with_1d beta Sigma_x then Inl InputDimension
         else if J = 1 then
           (case single_group erfinv (hd (data alpha)) (squeeze beta) Sigma_x of
              Inl e \<Rightarrow> Inl e
            | Inr (mu_x, sigma_x) \<Rightarrow>
                if scalar_output alpha beta then Inr (scalar mu_x, scalar sigma_x)
                else Inr (vector [mu_x], vector [sigma_x]))
         else
           (let alpha = squeeze alpha;
                beta = (if ndim beta = 2 \<and> hd (shape beta) = 1
                        then \<lparr>shape = tl (shape beta), data = data beta\<rparr> else beta);
                beta = (if ndim beta = 0 then \<lparr>shape = [1], data = data beta\<rparr> else beta)
            in if ndim alpha = 0 then common_alpha erfinv bdt sdt J (hd (data alpha)) beta Sigma_x
               else if ndim beta = 1 then common_beta erfinv strict J alpha beta Sigma_x
               else both_varying erfinv J alpha beta Sigma_x)))"

text \<open>
  The magnitude of the slopes of one group, in the words of the specification: the
  square root of the quadratic form or of the sum of squares, and \<open>|beta|\<close> for a single
  input dimension.
\<close>

definition slope_magnitude :: "real array2 option \<Rightarrow> real list \<Rightarrow> float64" where
  "slope_magnitude Sigma_x b =
     (if length b = 1 then Finite \<bar>hd b\<bar> else fsqrt (Finite (row_q Sigma_x b)))"

subsection \<open>Auxiliary notions for the claims\<close>

text \<open>\<open>np.eye(D)\<close> as a covariance structure.\<close>

definition identity_matrix :: "nat \<Rightarrow> real array2" where
  "identity_matrix D = map (\<lambda>i. map (\<lambda>j. if i = j then 1 else 0) [0..<D]) [0..<D]"

text \<open>
  A stand-in for \<open>scipy.special.erfinv\<close> in the examples: the constant \<open>-1.645\<close>, close to
  \<open>erfinv(-0.98)\<close>.
\<close>

definition erfinv0 :: "real \<Rightarrow> real" where
  "erfinv0 x = - 1645 / 1000"

text \<open>
  \<open>J\<close> repetitions of a single-group result: the two scalars repeated \<open>J\<close> times, or the
  error the single call raised.
\<close>

definition repeat_result ::
    "nat \<Rightarrow> error + float64 ndarray \<times> float64 ndarray \<Rightarrow> error + float64 ndarray \<times> float64 ndarray" where
  "repeat_result J r =
     (case r of
        Inl e \<Rightarrow> Inl e
      | Inr (mu_x, sigma_x) \<Rightarrow>
          Inr (vector (replicate J (hd (data mu_x))), vector (replicate J (hd (data sigma_x)))))"

text \<open>
  What the loop body gives for one group with intercept \<open>a\<close> and slopes \<open>b\<close>, the magnitude
  of the slopes taken as the specification words it.
\<close>

definition group_result ::
    "(real \<Rightarrow> real) \<Rightarrow> real \<Rightarrow> real list \<Rightarrow> real array2 option \<Rightarrow> float64 \<times> float64" where
  "group_result erfinv a b Sigma_x =
     threshold_group erfinv a (sum_list b) (slope_magnitude Sigma_x b)
       (fmul (Finite (sqrt 2 * ERFINVGAMMA0 erfinv)) (slope_magnitude Sigma_x b))"



subsection \<open>What is raised, and the shape of what is returned\<close>

text \<open>The exception a call raised, if it raised one.\<close>

definition raised :: "error + 'a \<Rightarrow> error option" where
  "raised r = (case r of Inl e \<Rightarrow> Some e | Inr v \<Rightarrow> None)"







text \<open>
  The shape of the two results: one entry for each group, and for a single group a plain
  scalar when the flag \<open>scalar_output\<close> is set and an array of length one when it is not.
\<close>

definition out_shape :: "real ndarray \<Rightarrow> real ndarray \<Rightarrow> nat list" where
  "out_shape alpha beta =
     (if group_count alpha beta = 1
      then (if scalar_output alpha beta then [] else [1])
      else [group_count alpha beta])"
section \<open>Rounding\<close>

text \<open>
  Everything above computes with exact reals. One claim compares the float64 results of
  two computations that are equal as real expressions, and for it the operations of
  float64 are needed as they are: the exact result rounded to the nearest number with a
  significand of 53 bits, ties to the even significand (\<open>fl\<close>). The range of the exponent
  is not bounded here; no value below comes near overflow or underflow. \<open>pow2 k\<close> is
  \<open>2 ** k\<close>, \<open>exponent x\<close> the exponent of the leading bit of \<open>x\<close>.
\<close>

definition pow2 :: "int \<Rightarrow> real" where
  "pow2 k = (if 0 \<le> k then 2 ^ nat k else 1 / 2 ^ nat (- k))"

definition round_half_even :: "real \<Rightarrow> int" where
  "round_half_even x =
     (let f = \<lfloor>x\<rfloor>; r = x - of_int f
      in if r < 1/2 then f else if 1/2 < r then f + 1 else if even f then f else f + 1)"

definition exponent :: "real \<Rightarrow> int" where
  "exponent x = \<lfloor>log 2 \<bar>x\<bar>\<rfloor>"

definition fl :: "real \<Rightarrow> real" where
  "fl x = (if x = 0 then 0
           else of_int (round_half_even (x / pow2 (exponent x - 52))) * pow2 (exponent x - 52))"

text \<open>
  The scale \<open>sigma_x\<close> of a group whose mean is not shifted, for more than one input
  dimension and without \<open>Sigma_x\<close>, as the two branches compute it, with the rounding \<open>rnd\<close>
  after every operation: with \<open>fl\<close> these are the program's float64 operations, with the
  identity the real expressions of the model above. \<open>E\<close> and \<open>L\<close> are the constants
  \<open>ERFINVGAMMA0\<close> and \<open>LOGITP0\<close>. \<open>np.sum\<close> adds fewer than eight numbers one after the
  other.

  The single group (lines 187 and 195):
  \<open>ssbeta = np.sqrt(2 * np.sum(np.square(beta)))\<close>,
  \<open>sigma_x = (LOGITP0 + np.abs(alpha)) / (ERFINVGAMMA0 * ssbeta)\<close>.
  One of several groups (lines 296, 303 and 309):
  \<open>ssbeta = np.sqrt(np.sum(np.square(beta), axis=-1))\<close>,
  \<open>divisor = np.sqrt(2) * ERFINVGAMMA0 * ssbeta\<close>,
  \<open>sigma_x[j] = (LOGITP0 + np.abs(alpha[j])) / divisor[j]\<close>.
  The threshold is \<open>DELTA_MAX = np.sqrt(2) * SIGMA_F0 * ERFINVGAMMA0 - LOGITP0\<close>.
\<close>

definition rnd_sum :: "(real \<Rightarrow> real) \<Rightarrow> real list \<Rightarrow> real" where
  "rnd_sum rnd xs = foldl (\<lambda>s x. rnd (s + x)) 0 xs"

definition rnd_sum_sq :: "(real \<Rightarrow> real) \<Rightarrow> real list \<Rightarrow> real" where
  "rnd_sum_sq rnd b = rnd_sum rnd (map (\<lambda>x. rnd (x * x)) b)"

definition sigma_x_single_rnd :: "(real \<Rightarrow> real) \<Rightarrow> real \<Rightarrow> real \<Rightarrow> real \<Rightarrow> real list \<Rightarrow> real" where
  "sigma_x_single_rnd rnd E L alpha beta =
     (let ssbeta = rnd (sqrt (rnd (2 * rnd_sum_sq rnd beta)))
      in rnd (rnd (L + \<bar>alpha\<bar>) / rnd (E * ssbeta)))"

definition sigma_x_group_rnd :: "(real \<Rightarrow> real) \<Rightarrow> real \<Rightarrow> real \<Rightarrow> real \<Rightarrow> real list \<Rightarrow> real" where
  "sigma_x_group_rnd rnd E L alpha_j beta_j =
     (let ssbeta = rnd (sqrt (rnd_sum_sq rnd beta_j));
          divisor = rnd (rnd (rnd (sqrt 2) * E) * ssbeta)
      in rnd (rnd (L + \<bar>alpha_j\<bar>) / divisor))"

definition DELTA_MAX_rnd :: "(real \<Rightarrow> real) \<Rightarrow> real \<Rightarrow> real \<Rightarrow> real" where
  "DELTA_MAX_rnd rnd E L = rnd (rnd (rnd (rnd (sqrt 2) * SIGMA_F0) * E) - L)"

text \<open>
  The two constants in float64: the numbers nearest to \<open>erfinv(2 * 0.01 - 1)\<close> and to
  \<open>logit(0.2)\<close>, which are \<open>-1.6449763571331868\<close> and \<open>-1.3862943611198906\<close>.
\<close>

definition E64 :: real where "E64 = - 7408314909018296 / 2 ^ 52"
definition L64 :: real where "L64 = - 6243314768165359 / 2 ^ 52"

section \<open>Lemmas about rand\_corr\_vine\<close>

lemma square_arr_nth: "square_arr d M \<Longrightarrow> i < d \<Longrightarrow> length (M ! i) = d"
  by (simp add: square_arr_def list_all_length)

lemma square_arr_set2: "square_arr d M \<Longrightarrow> square_arr d (set2 M i j v)"
  by (cases "i < length M")
     (auto simp: square_arr_def set2_def list_all_length nth_list_update)

lemma get2_set2:
  "square_arr d M \<Longrightarrow> i < d \<Longrightarrow> j < d \<Longrightarrow>
   get2 (set2 M i j v) a b = (if a = i \<and> b = j then v else get2 M a b)"
  by (auto simp: square_arr_def get2_def set2_def list_all_length nth_list_update)

lemma square_arr_np_empty: "square_arr d (np_empty d junk)"
  by (simp add: square_arr_def np_empty_def list_all_length)

lemma square_arr_np_eye: "square_arr d (np_eye d)"
  by (simp add: square_arr_def np_eye_def list_all_length)

lemma get2_np_eye: "a < d \<Longrightarrow> b < d \<Longrightarrow> get2 (np_eye d) a b = (if a = b then Finite 1 else Finite 0)"
  by (simp add: get2_def np_eye_def)

lemma square_arr_put: "square_arr d P \<Longrightarrow> square_arr d (put P ps bs)"
  by (induction P ps bs rule: put.induct) (simp_all add: square_arr_set2)

lemma square_arr_putT: "square_arr d P \<Longrightarrow> square_arr d (putT P ps bs)"
  by (induction P ps bs rule: putT.induct) (simp_all add: square_arr_set2)

lemma get2_put_other:
  "square_arr d P \<Longrightarrow> in_range d ps \<Longrightarrow> (a, b) \<notin> set ps \<Longrightarrow>
   get2 (put P ps bs) a b = get2 P a b"
proof (induction P ps bs rule: put.induct)
  case (1 P i j ps b bs)
  then show ?case
    by (auto simp: in_range_def square_arr_set2 get2_set2)
qed simp_all

lemma get2_put_nth:
  "square_arr d P \<Longrightarrow> in_range d ps \<Longrightarrow> distinct ps \<Longrightarrow> length bs = length ps \<Longrightarrow>
   n < length ps \<Longrightarrow> get2 (put P ps bs) (fst (ps ! n)) (snd (ps ! n)) = bs ! n"
proof (induction P ps bs arbitrary: n rule: put.induct)
  case (1 P i j ps b bs)
  show ?case
  proof (cases n)
    case 0
    have "get2 (put (set2 P i j b) ps bs) i j = get2 (set2 P i j b) i j"
      using 1 by (intro get2_put_other[where d=d]) (auto simp: in_range_def square_arr_set2)
    then show ?thesis using 1 0 by (simp add: get2_set2 in_range_def)
  next
    case (Suc m)
    then show ?thesis using 1 by (simp add: in_range_def square_arr_set2)
  qed
qed simp_all

lemma putT_put: "putT P ps bs = put P (map prod.swap ps) bs"
  by (induction P ps bs rule: putT.induct) simp_all

lemma set_triu_indices: "set (triu_indices d) = {(i, j). i < j \<and> j < d}"
  by (fastforce simp: triu_indices_def)

lemma distinct_triu_indices: "distinct (triu_indices d)"
proof -
  have "inj_on (\<lambda>i. map (\<lambda>j. (i, j)) [Suc i..<d]) {0..<d}"
  proof (rule inj_onI)
    fix x y assume x: "x \<in> {0..<d}" and y: "y \<in> {0..<d}"
      and eq: "map (\<lambda>j. (x, j)) [Suc x..<d] = map (\<lambda>j. (y, j)) [Suc y..<d]"
    from eq have "length (map (\<lambda>j. (x, j)) [Suc x..<d]) = length (map (\<lambda>j. (y, j)) [Suc y..<d])"
      by (rule arg_cong)
    then show "x = y" using x y by simp
  qed
  then show ?thesis
    unfolding triu_indices_def
    by (intro distinct_concat) (auto simp: distinct_map inj_on_def)
qed

lemma in_range_triu_indices: "in_range d (triu_indices d)"
  by (auto simp: in_range_def list_all_iff set_triu_indices)

lemma in_range_swap: "in_range d ps \<Longrightarrow> in_range d (map prod.swap ps)"
  by (auto simp: in_range_def list_all_iff)

lemma fill_P_entries:
  assumes len: "length bs = length (triu_indices d)" and ij: "i < j" "j < d"
  shows "\<exists>n < length bs. triu_indices d ! n = (i, j) \<and>
           get2 (fill_P d junk bs) i j = bs ! n \<and>
           get2 (fill_P d junk bs) j i = bs ! n * bs ! n"
proof -
  let ?u = "triu_indices d"
  let ?P1 = "put (np_empty d junk) ?u bs"
  have "(i, j) \<in> set ?u" using ij by (simp add: set_triu_indices)
  then obtain n where n: "n < length ?u" "?u ! n = (i, j)"
    by (auto simp: in_set_conv_nth)
  have sq1: "square_arr d ?P1" by (simp add: square_arr_put square_arr_np_empty)
  have up: "get2 ?P1 i j = bs ! n"
    using get2_put_nth[OF square_arr_np_empty in_range_triu_indices distinct_triu_indices len n(1),
        of junk] n(2) by simp
  have notin: "(i, j) \<notin> set (map prod.swap ?u)"
    using ij by (auto simp: set_triu_indices)
  have fill: "fill_P d junk bs = put ?P1 (map prod.swap ?u) (map (\<lambda>b. b * b) bs)"
    by (simp add: fill_P_def Let_def putT_put)
  have a: "get2 (fill_P d junk bs) i j = bs ! n"
    unfolding fill using get2_put_other[OF sq1 in_range_swap[OF in_range_triu_indices] notin] up
    by simp
  have "get2 (fill_P d junk bs) (fst (map prod.swap ?u ! n)) (snd (map prod.swap ?u ! n))
        = map (\<lambda>b. b * b) bs ! n"
    unfolding fill
    by (rule get2_put_nth[OF sq1 in_range_swap[OF in_range_triu_indices]])
       (use n len in \<open>simp_all add: distinct_map distinct_triu_indices\<close>)
  then have b: "get2 (fill_P d junk bs) j i = bs ! n * bs ! n"
    using n len by simp
  show ?thesis using n a b len by auto
qed

lemma fill_P_partial_corr:
  assumes len: "length ps = length (triu_indices d)" and ij: "i < j" "j < d"
  shows "get2 (fill_P d junk ps) i j = partial_corr d ps i j"
    and "get2 (fill_P d junk ps) j i = partial_corr d ps i j * partial_corr d ps i j"
proof -
  obtain n where n: "n < length ps" "triu_indices d ! n = (i, j)"
    "get2 (fill_P d junk ps) i j = ps ! n" "get2 (fill_P d junk ps) j i = ps ! n * ps ! n"
    using fill_P_entries[OF len ij] by blast
  have "map_of (zip (triu_indices d) ps) (triu_indices d ! n) = Some (ps ! n)"
    using len n(1) by (intro map_of_zip_nth) (simp_all add: distinct_triu_indices)
  then have pc: "partial_corr d ps i j = ps ! n"
    by (simp add: partial_corr_def n(2))
  show "get2 (fill_P d junk ps) i j = partial_corr d ps i j" using n pc by simp
  show "get2 (fill_P d junk ps) j i = partial_corr d ps i j * partial_corr d ps i j"
    using n pc by simp
qed

lemma fold_rev_upt_rec:
  "(\<And>k x. k < n \<Longrightarrow> f k x = corr_step p i j k x) \<Longrightarrow>
   fold f (rev [0..<n]) x = corr_rec p i j n x"
  by (induction n arbitrary: x) simp_all

lemma vine_cur_rec:
  assumes len: "length ps = length (triu_indices d)" and ij: "i < j" "j < d"
  shows "vine_cur (fill_P d junk ps) i j =
         corr_rec (partial_corr d ps) i j i (Finite (partial_corr d ps i j))"
proof -
  have "vine_step (fill_P d junk ps) i j k x = corr_step (partial_corr d ps) i j k x"
    if "k < i" for k x
  proof -
    have "k < j" "i < d" using that ij by simp_all
    then show ?thesis
      using fill_P_partial_corr[OF len \<open>k < i\<close> \<open>i < d\<close>, of junk]
            fill_P_partial_corr[OF len \<open>k < j\<close> \<open>j < d\<close>, of junk]
      by (simp add: vine_step_def corr_step_def)
  qed
  then show ?thesis
    unfolding vine_cur_def
    by (simp add: fold_rev_upt_rec fill_P_partial_corr(1)[OF len ij])
qed

lemma square_arr_vine_row: "square_arr d C \<Longrightarrow> square_arr d (fold (\<lambda>j C. let cur = vine_cur P i j in set2 (set2 C i j cur) j i cur) js C)"
  by (induction js arbitrary: C) (simp_all add: square_arr_set2 Let_def)

lemma get2_vine_row_gen:
  "square_arr d C \<Longrightarrow> i < d \<Longrightarrow> \<forall>j\<in>set js. j < d \<Longrightarrow>
   get2 (fold (\<lambda>j C. let cur = vine_cur P i j in set2 (set2 C i j cur) j i cur) js C) a b =
     (if a = i \<and> b \<in> set js then vine_cur P i b
      else if b = i \<and> a \<in> set js then vine_cur P i a
      else get2 C a b)"
proof (induction js arbitrary: C)
  case Nil
  then show ?case by simp
next
  case (Cons j js)
  let ?f = "\<lambda>j C. let cur = vine_cur P i j in set2 (set2 C i j cur) j i cur"
  let ?C = "set2 (set2 C i j (vine_cur P i j)) j i (vine_cur P i j)"
  have sq: "square_arr d ?C" using Cons.prems by (simp add: square_arr_set2)
  have js: "\<forall>j\<in>set js. j < d" and j: "j < d" using Cons.prems by simp_all
  have one: "get2 ?C a b =
      (if (a = i \<and> b = j) \<or> (a = j \<and> b = i) then vine_cur P i j else get2 C a b)"
    unfolding get2_set2[OF square_arr_set2[OF Cons.prems(1)] j Cons.prems(2)]
              get2_set2[OF Cons.prems(1,2) j]
    by (simp only: split: if_split) blast
  have "get2 (fold ?f (j # js) C) a b = get2 (fold ?f js ?C) a b"
    by (simp add: Let_def)
  also have "\<dots> = (if a = i \<and> b \<in> set js then vine_cur P i b
      else if b = i \<and> a \<in> set js then vine_cur P i a
      else get2 ?C a b)"
    by (rule Cons.IH[OF sq Cons.prems(2) js])
  finally show ?case unfolding one
    by (simp only: list.set insert_iff split: if_split) blast
qed

lemma get2_vine_row:
  "square_arr d C \<Longrightarrow> i < d \<Longrightarrow>
   get2 (vine_row P d i C) a b =
     (if a = i \<and> i < b \<and> b < d then vine_cur P i b
      else if b = i \<and> i < a \<and> a < d then vine_cur P i a
      else get2 C a b)"
  unfolding vine_row_def
  by (subst get2_vine_row_gen[where d=d]) auto

lemma square_arr_vine_row': "square_arr d C \<Longrightarrow> square_arr d (vine_row P d i C)"
  unfolding vine_row_def by (rule square_arr_vine_row)

lemma square_arr_fold_rows: "square_arr d C \<Longrightarrow> square_arr d (fold (vine_row P d) rows C)"
  by (induction rows arbitrary: C) (simp_all add: square_arr_vine_row')

lemma get2_fold_rows:
  "square_arr d C \<Longrightarrow> \<forall>i\<in>set rows. i < d \<Longrightarrow> a < d \<Longrightarrow> b < d \<Longrightarrow>
   get2 (fold (vine_row P d) rows C) a b =
     (if a < b \<and> a \<in> set rows then vine_cur P a b
      else if b < a \<and> b \<in> set rows then vine_cur P b a
      else get2 C a b)"
proof (induction rows arbitrary: C)
  case Nil
  then show ?case by simp
next
  case (Cons i rows)
  have sq: "square_arr d (vine_row P d i C)" using Cons.prems by (simp add: square_arr_vine_row')
  have rows: "\<forall>i\<in>set rows. i < d" and i: "i < d" using Cons.prems by simp_all
  have "get2 (fold (vine_row P d) (i # rows) C) a b
        = get2 (fold (vine_row P d) rows (vine_row P d i C)) a b"
    by simp
  also have "\<dots> = (if a < b \<and> a \<in> set rows then vine_cur P a b
      else if b < a \<and> b \<in> set rows then vine_cur P b a
      else get2 (vine_row P d i C) a b)"
    by (rule Cons.IH[OF sq rows Cons.prems(3,4)])
  finally show ?case
    unfolding get2_vine_row[OF Cons.prems(1) i] using Cons.prems(3,4) by auto
qed

lemma get2_vine_loops:
  assumes "square_arr d C" "a < d" "b < d"
  shows "get2 (vine_loops P d C) a b =
     (if a < b then vine_cur P a b else if b < a then vine_cur P b a else get2 C a b)"
proof -
  have "get2 (vine_loops P d C) a b =
     (if a < b \<and> a \<in> set [0..<d - 1] then vine_cur P a b
      else if b < a \<and> b \<in> set [0..<d - 1] then vine_cur P b a
      else get2 C a b)"
    unfolding vine_loops_def using assms by (intro get2_fold_rows) auto
  then show ?thesis using assms by auto
qed

lemma sq_le_one: fixes x :: real assumes "\<bar>x\<bar> \<le> 1" shows "x * x \<le> 1"
proof -
  have "\<bar>x\<bar> * \<bar>x\<bar> \<le> 1 * 1" using assms by (intro mult_mono) simp_all
  then show ?thesis by simp
qed

lemma vine_bound:
  fixes v x y :: real
  assumes v: "\<bar>v\<bar> \<le> 1" and x: "\<bar>x\<bar> \<le> 1" and y: "\<bar>y\<bar> \<le> 1"
  shows "0 \<le> (1 - x * x) * (1 - y * y)"
    and "\<bar>v * sqrt ((1 - x * x) * (1 - y * y)) + x * y\<bar> \<le> 1"
proof -
  define s where "s = sqrt ((1 - x * x) * (1 - y * y))"
  define t where "t = \<bar>x\<bar> * \<bar>y\<bar>"
  have x2: "x * x \<le> 1" using x by (rule sq_le_one)
  have y2: "y * y \<le> 1" using y by (rule sq_le_one)
  show nn: "0 \<le> (1 - x * x) * (1 - y * y)" using x2 y2 by simp
  have t1: "t \<le> 1" and t0: "0 \<le> t" unfolding t_def using x y by (simp_all add: mult_le_one)
  have xx: "x * x = \<bar>x\<bar> * \<bar>x\<bar>" and yy: "y * y = \<bar>y\<bar> * \<bar>y\<bar>" by simp_all
  have "0 \<le> (\<bar>x\<bar> - \<bar>y\<bar>) * (\<bar>x\<bar> - \<bar>y\<bar>)" by simp
  then have "2 * t \<le> x * x + y * y"
    unfolding t_def xx yy by (simp add: algebra_simps)
  moreover have "(1 - x * x) * (1 - y * y) = 1 - (x * x + y * y) + t * t"
    unfolding t_def xx yy by (simp add: algebra_simps)
  moreover have "(1 - t) * (1 - t) = 1 - 2 * t + t * t"
    by (simp add: algebra_simps)
  ultimately have "(1 - x * x) * (1 - y * y) \<le> (1 - t) * (1 - t)" by simp
  then have "s \<le> sqrt ((1 - t) * (1 - t))"
    unfolding s_def by (rule real_sqrt_le_mono)
  also have "\<dots> = 1 - t" using t1 by simp
  finally have s: "s \<le> 1 - t" .
  have s0: "0 \<le> s" unfolding s_def using nn by simp
  have "\<bar>v * s + x * y\<bar> \<le> \<bar>v * s\<bar> + \<bar>x * y\<bar>" by (rule abs_triangle_ineq)
  also have "\<dots> = \<bar>v\<bar> * s + t" unfolding t_def using s0 by (simp add: abs_mult)
  also have "\<dots> \<le> 1 * s + t" using v s0 by (intro add_right_mono mult_right_mono)
  also have "\<dots> \<le> 1" using s by simp
  finally show "\<bar>v * sqrt ((1 - x * x) * (1 - y * y)) + x * y\<bar> \<le> 1" unfolding s_def .
qed

lemma corr_step_unit:
  assumes "unit_val cur" "\<bar>p k i\<bar> \<le> 1" "\<bar>p k j\<bar> \<le> 1"
  shows "unit_val (corr_step p i j k cur)"
proof -
  obtain v where v: "cur = Finite v" "\<bar>v\<bar> \<le> 1"
    using assms(1) by (cases cur) (auto simp: unit_val_def)
  have "\<not> (1 - p k i * p k i) * (1 - p k j * p k j) < 0"
    using vine_bound(1)[OF v(2) assms(2,3)] by simp
  moreover have "\<bar>v * sqrt ((1 - p k i * p k i) * (1 - p k j * p k j)) + p k i * p k j\<bar> \<le> 1"
    by (rule vine_bound(2)[OF v(2) assms(2,3)])
  ultimately show ?thesis
    by (simp add: corr_step_def v(1) unit_val_def abs_le_iff)
qed

lemma corr_rec_unit:
  "unit_val cur \<Longrightarrow> (\<And>k. k < n \<Longrightarrow> \<bar>p k i\<bar> \<le> 1 \<and> \<bar>p k j\<bar> \<le> 1) \<Longrightarrow>
   unit_val (corr_rec p i j n cur)"
proof (induction n arbitrary: cur)
  case 0
  then show ?case by simp
next
  case (Suc n)
  have "unit_val (corr_step p i j n cur)"
    using Suc.prems by (intro corr_step_unit) simp_all
  then show ?case using Suc.prems by (simp add: Suc.IH)
qed

lemma triu4: "triu_indices 4 = [(0,1),(0,2),(0,3),(1,2),(1,3),(2,3)]"
  by (simp add: triu_indices_def upt_rec)

lemma pc0: "partial_corr 4 ps0 0 (Suc 0) = 1/2" "partial_corr 4 ps0 0 2 = 1/2"
  "partial_corr 4 ps0 (Suc 0) 2 = 1/2"
  by (simp_all add: partial_corr_def triu4 ps0_def)

lemma sqrt_9_16: "sqrt (9/16) = 3/4"
  by (rule real_sqrt_unique) (simp_all add: power2_eq_square)

lemma len0: "length ps0 = length (triu_indices 4)"
  by (simp add: triu4 ps0_def)

lemma rand_corr_vine_eq:
  assumes "get_rand_state np seed = Inr g0"
    and "rand_state_beta np g0 alpha beta (length (triu_indices d)) = Inr (betas, g1)"
    and "permutation np g1 d = (perm, g2)"
  shows "rand_corr_vine np junk d alpha beta pmin pmax seed =
         Inr (np_ix (vine_loops (fill_P d junk (scale_betas pmin pmax betas)) d (np_eye d)) perm, g2)"
  by (simp add: rand_corr_vine_def Let_def assms)

lemma permutation_one:
  assumes "distinct p \<and> set p = {0..<1::nat}"
  shows "p = [0]"
proof -
  have d: "distinct p" and s: "set p = {0}" using assms by simp_all
  have "length p = card {0::nat}" using distinct_card[OF d] s by simp
  then obtain x where x: "p = [x]" by (cases p) auto
  then show ?thesis using s by simp
qed

lemma partial_corr_in_set:
  assumes "length ps = length (triu_indices d)" "a < b" "b < d"
  shows "partial_corr d ps a b \<in> set ps"
proof -
  obtain n where "n < length ps" "get2 (fill_P d (\<lambda>i j. 0) ps) a b = ps ! n"
    using fill_P_entries[OF assms, of "\<lambda>i j. 0"] by blast
  then show ?thesis
    using fill_P_partial_corr(1)[OF assms, of "\<lambda>i j. 0"] by (metis nth_mem)
qed

lemma vine_cur_unit:
  assumes len: "length ps = length (triu_indices d)" and ab: "a < b" "b < d"
    and ps: "\<forall>p\<in>set ps. \<bar>p\<bar> \<le> 1"
  shows "unit_val (vine_cur (fill_P d junk ps) a b)"
proof -
  have pc: "\<bar>partial_corr d ps x y\<bar> \<le> 1" if "x < y" "y < d" for x y
    using partial_corr_in_set[OF len that] ps by blast
  have "unit_val (Finite (partial_corr d ps a b))"
    using pc[OF ab] by (simp add: unit_val_def abs_le_iff) linarith?
  then have "unit_val (corr_rec (partial_corr d ps) a b a (Finite (partial_corr d ps a b)))"
  proof (rule corr_rec_unit)
    fix k assume "k < a"
    then show "\<bar>partial_corr d ps k a\<bar> \<le> 1 \<and> \<bar>partial_corr d ps k b\<bar> \<le> 1"
      using pc[of k a] pc[of k b] ab by simp
  qed
  then show ?thesis by (simp add: vine_cur_rec[OF len ab])
qed

lemma get2_np_ix:
  "a < length perm \<Longrightarrow> b < length perm \<Longrightarrow> get2 (np_ix C perm) a b = get2 C (perm ! a) (perm ! b)"
  by (simp add: np_ix_def get2_def)

lemma square_arr_np_ix: "length perm = d \<Longrightarrow> square_arr d (np_ix C perm)"
  by (simp add: square_arr_def np_ix_def list_all_length)

lemma square_arr_vine_loops: "square_arr d C \<Longrightarrow> square_arr d (vine_loops P d C)"
  unfolding vine_loops_def by (rule square_arr_fold_rows)

lemma scale_betas_unit:
  assumes "\<forall>p\<in>set (scale_betas pmin pmax betas). pmin \<le> p \<and> p \<le> pmax" "- 1 \<le> pmin" "pmax \<le> 1"
  shows "\<forall>p\<in>set (scale_betas pmin pmax betas). \<bar>p\<bar> \<le> 1"
  using assms by (auto simp: abs_le_iff) 

section \<open>Claims about rand\_corr\_vine\<close>

text \<open>
  Claim C1, as the function computes it. For every \<open>d\<close>, every list \<open>ps\<close> of sampled
  partial correlations and every pair \<open>i < j < d\<close>, the loop over \<open>k\<close> from \<open>i - 1\<close> down to
  \<open>0\<close> computes \<open>cur = cur * sqrt ((1 - P[i,k]) * (1 - P[j,k])) + P[k,i] * P[k,j]\<close>, where
  \<open>P[i,k]\<close> and \<open>P[j,k]\<close> are entries of the lower triangle and hold the squares of the
  partial correlations of the pairs \<open>(k,i)\<close> and \<open>(k,j)\<close>, and \<open>P[k,i]\<close> and \<open>P[k,j]\<close> are
  entries of the upper triangle and hold these partial correlations themselves. The
  loops read \<open>P\<close> and never write it (\<open>vine_loops\<close> takes \<open>P\<close> and returns \<open>C\<close> only); the
  result goes to \<open>C[i,j]\<close> and \<open>C[j,i]\<close>. So the value of the pair is the vine recursion
  \<open>corr_rec\<close> on the sampled partial correlations.
\<close>

theorem C1_recursion:
  assumes "length ps = length (triu_indices d)" "i < j" "j < d"
  shows "(\<forall>k<i. get2 (fill_P d junk ps) i k = partial_corr d ps k i * partial_corr d ps k i \<and>
                get2 (fill_P d junk ps) j k = partial_corr d ps k j * partial_corr d ps k j \<and>
                get2 (fill_P d junk ps) k i = partial_corr d ps k i \<and>
                get2 (fill_P d junk ps) k j = partial_corr d ps k j) \<and>
         get2 (vine_loops (fill_P d junk ps) d (np_eye d)) i j
           = corr_rec (partial_corr d ps) i j i (Finite (partial_corr d ps i j)) \<and>
         get2 (vine_loops (fill_P d junk ps) d (np_eye d)) j i
           = corr_rec (partial_corr d ps) i j i (Finite (partial_corr d ps i j))"
proof (intro conjI allI impI)
  fix k assume k: "k < i"
  have kj: "k < j" and id: "i < d" using k assms by simp_all
  show "get2 (fill_P d junk ps) i k = partial_corr d ps k i * partial_corr d ps k i"
    by (rule fill_P_partial_corr(2)[OF assms(1) k id])
  show "get2 (fill_P d junk ps) j k = partial_corr d ps k j * partial_corr d ps k j"
    by (rule fill_P_partial_corr(2)[OF assms(1) kj assms(3)])
  show "get2 (fill_P d junk ps) k i = partial_corr d ps k i"
    by (rule fill_P_partial_corr(1)[OF assms(1) k id])
  show "get2 (fill_P d junk ps) k j = partial_corr d ps k j"
    by (rule fill_P_partial_corr(1)[OF assms(1) kj assms(3)])
next
  have id: "i < d" using assms by simp
  show "get2 (vine_loops (fill_P d junk ps) d (np_eye d)) i j
           = corr_rec (partial_corr d ps) i j i (Finite (partial_corr d ps i j))"
    using get2_vine_loops[OF square_arr_np_eye id assms(3)] assms(2)
    by (simp add: vine_cur_rec[OF assms])
  show "get2 (vine_loops (fill_P d junk ps) d (np_eye d)) j i
           = corr_rec (partial_corr d ps) i j i (Finite (partial_corr d ps i j))"
    using get2_vine_loops[OF square_arr_np_eye assms(3) id] assms(2)
    by (simp add: vine_cur_rec[OF assms])
qed

text \<open>
  The theorem at \<open>d = 4\<close>, pair \<open>(1, 2)\<close>: one step, with \<open>k = 0\<close>, gives
  \<open>1/2 * sqrt ((1 - 1/4) * (1 - 1/4)) + 1/2 * 1/2 = 5/8\<close>.
\<close>

theorem C1_recursion_witness:
  "length ps0 = length (triu_indices 4) \<and> Suc 0 < 2 \<and> (2::nat) < 4 \<and>
   get2 (vine_loops (fill_P 4 (\<lambda>i j. 0) ps0) 4 (np_eye 4)) (Suc 0) 2 = Finite (5/8)"
  using C1_recursion[of ps0 4 "Suc 0" 2 "\<lambda>i j. 0"]
  by (simp add: len0 corr_step_def pc0 sqrt_9_16)

text \<open>
  Claim C1 as the specification words it fails. It says that \<open>P[i,k]\<close> is read as a raw partial
  correlation and that \<open>P[k,i]\<close> is an already combined value written by an earlier
  iteration. At \<open>d = 4\<close> with the partial correlations \<open>ps0\<close>: the entry \<open>P[1,0]\<close>, read as
  \<open>P[i,k]\<close> for the pair \<open>(1, 2)\<close>, is \<open>1/4\<close> and not the partial correlation \<open>1/2\<close> of the pair
  \<open>(0, 1)\<close>; the entry \<open>P[1,2]\<close>, read as \<open>P[k,i]\<close> for the pair \<open>(2, 3)\<close>, is the raw \<open>1/2\<close> and
  not the combined value \<open>5/8\<close> of the pair \<open>(1, 2)\<close>.
\<close>

theorem C1_counterexample:
  "get2 (fill_P 4 (\<lambda>i j. 0) ps0) 1 0 \<noteq> partial_corr 4 ps0 0 1 \<and>
   Finite (get2 (fill_P 4 (\<lambda>i j. 0) ps0) 1 2)
     \<noteq> get2 (vine_loops (fill_P 4 (\<lambda>i j. 0) ps0) 4 (np_eye 4)) 1 2"
proof -
  have a: "get2 (fill_P 4 (\<lambda>i j. 0) ps0) 1 0 = 1/4"
    using fill_P_partial_corr(2)[OF len0, of 0 1 "\<lambda>i j. 0"] by (simp add: pc0)
  have b: "get2 (fill_P 4 (\<lambda>i j. 0) ps0) 1 2 = 1/2"
    using fill_P_partial_corr(1)[OF len0, of 1 2 "\<lambda>i j. 0"] by (simp add: pc0)
  have "get2 (vine_loops (fill_P 4 (\<lambda>i j. 0) ps0) 4 (np_eye 4)) 1 2
        = vine_cur (fill_P 4 (\<lambda>i j. 0) ps0) 1 2"
    by (subst get2_vine_loops[where d=4]) (simp_all add: square_arr_np_eye)
  also have "\<dots> = corr_rec (partial_corr 4 ps0) 1 2 1 (Finite (partial_corr 4 ps0 1 2))"
    by (rule vine_cur_rec[OF len0]) simp_all
  also have "\<dots> = Finite (5/8)"
    by (simp add: corr_step_def pc0 sqrt_9_16)
  finally have c: "get2 (vine_loops (fill_P 4 (\<lambda>i j. 0) ps0) 4 (np_eye 4)) 1 2 = Finite (5/8)" .
  show ?thesis unfolding a b c by (simp add: pc0)
qed

text \<open>
  Claim C3. Let numpy build the generator and return the draws, as many as asked for, let
  the draws, scaled, lie in \<open>[pmin, pmax]\<close>, with \<open>-1 \<le> pmin\<close> and \<open>pmax \<le> 1\<close>, and let
  numpy return a permutation of the indices. Then \<open>rand_corr_vine\<close> returns, and the
  matrix it returns is \<open>d\<close> by \<open>d\<close>, symmetric, has every entry finite and in \<open>[-1, 1]\<close>,
  and has a unit diagonal.
\<close>

theorem C3_output:
  assumes state: "get_rand_state np seed = Inr g0"
    and draw: "rand_state_beta np g0 alpha beta (length (triu_indices d)) = Inr (betas, g1)"
    and len: "length betas = length (triu_indices d)"
    and rng: "\<forall>p\<in>set (scale_betas pmin pmax betas). pmin \<le> p \<and> p \<le> pmax"
    and bounds: "- 1 \<le> pmin" "pmax \<le> 1"
    and perm: "permutation np g1 d = (perm, g2)" "distinct perm" "set perm = {0..<d}"
  shows "\<not> isl (rand_corr_vine np junk d alpha beta pmin pmax seed) \<and>
         square_arr d (fst (projr (rand_corr_vine np junk d alpha beta pmin pmax seed))) \<and>
         (\<forall>a<d. \<forall>b<d.
            get2 (fst (projr (rand_corr_vine np junk d alpha beta pmin pmax seed))) a b
              = get2 (fst (projr (rand_corr_vine np junk d alpha beta pmin pmax seed))) b a \<and>
            unit_val (get2 (fst (projr (rand_corr_vine np junk d alpha beta pmin pmax seed))) a b)) \<and>
         (\<forall>a<d. get2 (fst (projr (rand_corr_vine np junk d alpha beta pmin pmax seed))) a a = Finite 1)"
proof -
  define ps where "ps = scale_betas pmin pmax betas"
  define C0 where "C0 = vine_loops (fill_P d junk ps) d (np_eye d)"
  have res: "rand_corr_vine np junk d alpha beta pmin pmax seed = Inr (np_ix C0 perm, g2)"
    unfolding rand_corr_vine_eq[OF state draw perm(1)] C0_def ps_def by simp
  have lps: "length ps = length (triu_indices d)" using len by (simp add: ps_def scale_betas_def)
  have unit: "\<forall>p\<in>set ps. \<bar>p\<bar> \<le> 1"
    unfolding ps_def by (rule scale_betas_unit[OF rng bounds])
  have lperm: "length perm = d"
    using distinct_card[OF perm(2)] perm(3) by simp
  have pin: "perm ! a < d" if "a < d" for a
    using that lperm perm(3) by (metis atLeastLessThan_iff nth_mem)
  have C0: "get2 C0 x y = (if x < y then vine_cur (fill_P d junk ps) x y
                           else if y < x then vine_cur (fill_P d junk ps) y x
                           else Finite 1)" if "x < d" "y < d" for x y
    unfolding C0_def using get2_vine_loops[OF square_arr_np_eye that] that
    by (simp add: get2_np_eye)
  have sym: "get2 C0 x y = get2 C0 y x" if "x < d" "y < d" for x y
    using C0[OF that] C0[OF that(2,1)] by (cases "x < y"; cases "y < x") simp_all
  have un: "unit_val (get2 C0 x y)" if "x < d" "y < d" for x y
  proof -
    consider "x < y" | "y < x" | "x = y" by linarith
    then show ?thesis
    proof cases
      case 1 then show ?thesis
        using C0[OF that] vine_cur_unit[OF lps 1 that(2) unit] by simp
    next
      case 2 then show ?thesis
        using C0[OF that] vine_cur_unit[OF lps 2 that(1) unit] by simp
    next
      case 3 then show ?thesis using C0[OF that] by (simp add: unit_val_def)
    qed
  qed
  have diag: "get2 C0 x x = Finite 1" if "x < d" for x using C0[OF that that] by simp
  show ?thesis
    unfolding res
    using lperm by (auto simp: square_arr_np_ix get2_np_ix pin sym un diag)
qed

text \<open>The theorem at \<open>d = 3\<close>, on the example generator and the default bounds.\<close>

theorem C3_output_witness:
  "get_rand_state example_np (Seed None) = Inr 0 \<and>
   rand_state_beta example_np 0 2 2 (length (triu_indices 3)) = Inr (replicate 3 (3/4), Suc 0) \<and>
   length (replicate 3 (3/4 :: real)) = length (triu_indices 3) \<and>
   list_all (\<lambda>p. - 0.8 \<le> p \<and> p \<le> 0.8) (scale_betas (- 0.8) 0.8 (replicate 3 (3/4))) \<and>
   - 1 \<le> (- 0.8 :: real) \<and> (0.8 :: real) \<le> 1 \<and>
   permutation example_np (Suc 0) 3 = ([2, 1, 0], Suc (Suc 0)) \<and>
   distinct [2, 1, 0 :: nat] \<and> set [2, 1, 0 :: nat] = {0..<3} \<and>
   \<not> isl (rand_corr_vine example_np (\<lambda>i j. 0) 3 2 2 (- 0.8) 0.8 (Seed None)) \<and>
   square_arr 3 (fst (projr (rand_corr_vine example_np (\<lambda>i j. 0) 3 2 2 (- 0.8) 0.8 (Seed None)))) \<and>
   get2 (fst (projr (rand_corr_vine example_np (\<lambda>i j. 0) 3 2 2 (- 0.8) 0.8 (Seed None)))) 0 2
     = get2 (fst (projr (rand_corr_vine example_np (\<lambda>i j. 0) 3 2 2 (- 0.8) 0.8 (Seed None)))) 2 0 \<and>
   unit_val (get2 (fst (projr (rand_corr_vine example_np (\<lambda>i j. 0) 3 2 2 (- 0.8) 0.8 (Seed None)))) 0 2) \<and>
   get2 (fst (projr (rand_corr_vine example_np (\<lambda>i j. 0) 3 2 2 (- 0.8) 0.8 (Seed None)))) 2 2 = Finite 1"
proof -
  have t3: "length (triu_indices 3) = 3" by (simp add: triu_indices_def upt_rec)
  have h0: "get_rand_state example_np (Seed None) = Inr 0"
    by (simp add: example_np_def get_rand_state_def seed_in_range_def)
  have h1: "rand_state_beta example_np 0 2 2 (length (triu_indices 3))
     = Inr (replicate 3 (3/4), Suc 0)"
    by (simp add: example_np_def rand_state_beta_def t3)
  have h2: "length (replicate 3 (3/4 :: real)) = length (triu_indices 3)" by (simp add: t3)
  have h3: "\<forall>p\<in>set (scale_betas (- 0.8) 0.8 (replicate 3 (3/4))). - 0.8 \<le> p \<and> p \<le> 0.8"
    by (simp add: scale_betas_def)
  have h4: "- 1 \<le> (- 0.8 :: real)" and h5: "(0.8 :: real) \<le> 1" by simp_all
  have h6: "permutation example_np (Suc 0) 3 = ([2, 1, 0], Suc (Suc 0))"
    by (simp add: example_np_def upt_rec)
  have h7: "distinct [2, 1, 0 :: nat]" by simp
  have h8: "set [2, 1, 0 :: nat] = {0..<3}" by auto
  show ?thesis
    using C3_output[OF h0 h1 h2 h3 h4 h5 h6 h7 h8, of "\<lambda>i j. 0"] h0 h1 h2 h3 h6 h8
    by (simp add: list_all_iff)
qed

text \<open>
  Claim C10, for the arguments that numpy accepts. The generator is built and the shape parameters are checked
  for every \<open>d\<close>, also for \<open>d = 1\<close> where nothing is drawn: an integer seed outside
  \<open>[0, 2**32 - 1]\<close> and a shape parameter that is not positive raise ValueError. For every
  seed and all shape parameters that numpy accepts the function returns the one by one
  identity matrix, whatever the bounds and the uninitialised content of \<open>P\<close>; numpy's
  permutation of one index is taken to be a permutation.
\<close>

theorem C10_identity:
  assumes "\<And>r. distinct (fst (permutation np r 1)) \<and> set (fst (permutation np r 1)) = {0..<1}"
  shows "(seed_accepted seed \<and> 0 < alpha \<and> 0 < beta \<longrightarrow>
            (\<exists>g. rand_corr_vine np junk 1 alpha beta pmin pmax seed = Inr ([[Finite 1]], g))) \<and>
         (\<not> seed_accepted seed \<longrightarrow>
            rand_corr_vine np junk 1 alpha beta pmin pmax seed = Inl SeedOutOfRange) \<and>
         (seed_accepted seed \<and> (alpha \<le> 0 \<or> beta \<le> 0) \<longrightarrow>
            rand_corr_vine np junk 1 alpha beta pmin pmax seed = Inl BetaShapeParameter)"
proof (intro conjI impI)
  assume ok: "seed_accepted seed \<and> 0 < alpha \<and> 0 < beta"
  have loops: "vine_loops P 1 C = C" for P C by (simp add: vine_loops_def)
  have eye: "np_eye 1 = [[Finite 1]]" by (simp add: np_eye_def)
  obtain g0 where state: "get_rand_state np seed = Inr g0"
    using ok by (cases seed) (simp_all add: get_rand_state_def seed_accepted_def)
  obtain betas g1 where draw:
    "rand_state_beta np g0 alpha beta (length (triu_indices 1)) = Inr (betas, g1)"
    using ok by (cases "beta_draw np g0 alpha beta (length (triu_indices 1))")
      (simp add: rand_state_beta_def)
  obtain perm g2 where p: "permutation np g1 1 = (perm, g2)"
    by (cases "permutation np g1 1")
  have perm: "perm = [0]" using permutation_one[OF assms[of g1]] p by simp
  have "rand_corr_vine np junk 1 alpha beta pmin pmax seed = Inr ([[Finite 1]], g2)"
    unfolding rand_corr_vine_eq[OF state draw p] loops eye perm
    by (simp add: np_ix_def get2_def)
  then show "\<exists>g. rand_corr_vine np junk 1 alpha beta pmin pmax seed = Inr ([[Finite 1]], g)"
    by blast
next
  assume "\<not> seed_accepted seed"
  then show "rand_corr_vine np junk 1 alpha beta pmin pmax seed = Inl SeedOutOfRange"
    by (cases seed) (simp_all add: rand_corr_vine_def get_rand_state_def seed_accepted_def)
next
  assume bad: "seed_accepted seed \<and> (alpha \<le> 0 \<or> beta \<le> 0)"
  then obtain g0 where state: "get_rand_state np seed = Inr g0"
    by (cases seed) (simp_all add: get_rand_state_def seed_accepted_def)
  show "rand_corr_vine np junk 1 alpha beta pmin pmax seed = Inl BetaShapeParameter"
    using bad by (auto simp add: rand_corr_vine_def state rand_state_beta_def)
qed

text \<open>The theorem on the example generator, at the default arguments.\<close>

theorem C10_identity_witness:
  "(\<forall>r. distinct (fst (permutation example_np r 1)) \<and>
        set (fst (permutation example_np r 1)) = {0..<1}) \<and>
   seed_accepted ((Seed None) :: nat seed) \<and> (0 :: real) < 2 \<and>
   (\<exists>g. rand_corr_vine example_np (\<lambda>i j. 0) 1 2 2 (- 0.8) 0.8 (Seed None) = Inr ([[Finite 1]], g))"
proof -
  have h: "distinct (fst (permutation example_np r 1)) \<and>
           set (fst (permutation example_np r 1)) = {0..<1}" for r
    by (simp add: example_np_def)
  have s: "seed_accepted ((Seed None) :: nat seed)"
    by (simp add: seed_accepted_def seed_in_range_def)
  show ?thesis
    using C10_identity[where np = example_np and junk = "\<lambda>i j. 0" and alpha = 2 and beta = 2
        and pmin = "- 0.8" and pmax = "0.8" and seed = "Seed None", OF h] h s
    by simp
qed

text \<open>
  Claim C10 as the specification words it fails: at \<open>d = 1\<close> the seed \<open>-1\<close>, the seed \<open>2**32\<close> and the
  shape parameters \<open>alpha = 0\<close> and \<open>beta = -1\<close> give no matrix, the call raises.
\<close>

theorem C10_counterexample:
  "rand_corr_vine example_np (\<lambda>i j. 0) 1 2 2 (- 0.8) 0.8 (Seed (Some (- 1))) = Inl SeedOutOfRange \<and>
   rand_corr_vine example_np (\<lambda>i j. 0) 1 2 2 (- 0.8) 0.8 (Seed (Some 4294967296)) = Inl SeedOutOfRange \<and>
   rand_corr_vine example_np (\<lambda>i j. 0) 1 0 2 (- 0.8) 0.8 (Seed None) = Inl BetaShapeParameter \<and>
   rand_corr_vine example_np (\<lambda>i j. 0) 1 2 (- 1) (- 0.8) 0.8 (Seed None) = Inl BetaShapeParameter"
  by (simp add: rand_corr_vine_def get_rand_state_def seed_in_range_def rand_state_beta_def)

section \<open>Lemmas about the calibration functions\<close>

lemma conforms_identity: "conforms D (identity_matrix D)"
  by (simp add: conforms_def identity_matrix_def list_all_length)

lemma sum_list_delta:
  fixes f :: "nat \<Rightarrow> real"
  shows "sum_list (map (\<lambda>i. f i * (if i = j then 1 else 0)) [0..<n]) = (if j < n then f j else 0)"
  by (induction n) (auto simp: less_Suc_eq)

lemma map2_nth:
  "length xs = length ys \<Longrightarrow> map2 f xs ys = map (\<lambda>i. f (xs ! i) (ys ! i)) [0..<length xs]"
  by (rule nth_equalityI) simp_all

lemma dot_row_identity: "dot_row b (identity_matrix (length b)) = b"
proof (rule nth_equalityI)
  show "length (dot_row b (identity_matrix (length b))) = length b"
    by (simp add: dot_row_def)
next
  fix j assume "j < length (dot_row b (identity_matrix (length b)))"
  then have j: "j < length b" by (simp add: dot_row_def)
  have "map2 (\<lambda>x r. x * r ! j) b (identity_matrix (length b))
      = map (\<lambda>i. b ! i * (if i = j then 1 else 0)) [0..<length b]"
    using j by (subst map2_nth) (simp_all add: identity_matrix_def)
  then show "dot_row b (identity_matrix (length b)) ! j = b ! j"
    using j by (simp add: dot_row_def sum_list_delta)
qed

lemma quad_form_identity: "quad_form (identity_matrix (length b)) b = sum_sq b"
proof -
  have "map2 (\<lambda>x y. x * y) b b = map (\<lambda>x. x * x) b"
    by (induction b) simp_all
  then show ?thesis by (simp add: quad_form_def dot_row_identity sum_sq_def)
qed

lemma length_rows_of:
  assumes "wf_ndarray a" "shape a \<noteq> []" "b \<in> set (rows_of a)"
  shows "length b = last (shape a)"
proof -
  let ?D = "last (shape a)"
  let ?n = "prod_list (butlast (shape a))"
  have "shape a = butlast (shape a) @ [?D]" using assms(2) by simp
  then have "prod_list (shape a) = ?n * ?D"
    by (metis prod_list.append prod_list.Cons prod_list.Nil mult_1_right)
  then have len: "length (data a) = ?n * ?D" using assms(1) by (simp add: wf_ndarray_def)
  obtain r where r: "r < ?n" "b = take ?D (drop (r * ?D) (data a))"
    using assms(3) by (auto simp: rows_of_def Let_def)
  have "Suc r * ?D \<le> ?n * ?D" using r(1) by (intro mult_le_mono1) simp
  then have "?D \<le> length (data a) - r * ?D" using len by simp
  then show ?thesis using r(2) by simp
qed

lemma c_const: "sqrt (R_SQUARED / (1 - R_SQUARED)) = 1"
  by (simp add: R_SQUARED_def)

lemma sum_sq_nonneg: "0 \<le> sum_sq b"
  unfolding sum_sq_def by (induction b) simp_all

lemma sqrt_1_25: "sqrt (1/25) = 1/5"
  by (rule real_sqrt_unique) (simp_all add: power2_eq_square)



lemma ln4_bounds: "1 \<le> ln (4::real)" "ln (4::real) \<le> 3"
proof -
  have "ln (1/2 :: real) \<le> 1/2 - 1" by (rule ln_le_minus_one) simp
  then have "1/2 \<le> ln (2::real)" by (simp add: ln_div)
  moreover have "ln (4::real) = ln 2 + ln 2"
    using ln_mult[of "2::real" 2] by simp
  ultimately show "1 \<le> ln (4::real)" by simp
  have "ln (4::real) \<le> 4 - 1" by (rule ln_le_minus_one) simp
  then show "ln (4::real) \<le> 3" by simp
qed

lemma LOGITP0_eq: "LOGITP0 = - ln 4"
proof -
  have "(0.2 :: real) / (1 - 0.2) = 1 / 4" by simp
  then show ?thesis by (simp add: LOGITP0_def logit_def P_0_def ln_div)
qed

lemma sqrt2_bounds: "1 \<le> sqrt 2" "sqrt 2 \<le> 2"
proof -
  show "1 \<le> sqrt 2" by simp
  have "sqrt 2 \<le> sqrt 4" by (rule real_sqrt_le_mono) simp
  then show "sqrt 2 \<le> 2" by simp
qed

lemma DELTA_MAX_erfinv0: "0 < DELTA_MAX erfinv0" "DELTA_MAX erfinv0 \<le> 100"
proof -
  have eq: "DELTA_MAX erfinv0 = ln 4 - sqrt 2 * (1645 / 4000)"
    by (simp add: DELTA_MAX_def ERFINVGAMMA0_def erfinv0_def SIGMA_F0_def LOGITP0_eq)
  have "sqrt 2 * (1645 / 4000) \<le> 2 * (1645 / 4000)"
    using sqrt2_bounds(2) by (intro mult_right_mono) simp_all
  then show "0 < DELTA_MAX erfinv0" using ln4_bounds(1) unfolding eq by simp
  have "0 \<le> sqrt 2 * (1645 / 4000)" by simp
  then show "DELTA_MAX erfinv0 \<le> 100" using ln4_bounds(2) unfolding eq by linarith
qed

lemma scaled_sqrt:
  "fmul (Finite E) (fsqrt (Finite (2 * q))) = fmul (Finite (E * sqrt 2)) (fsqrt (Finite q))"
  by (cases "q < 0") (simp_all add: real_sqrt_mult mult_less_0_iff not_less)

lemma squeeze_vector: "squeeze (vector xs) = (if length xs = 1 then \<lparr>shape = [], data = xs\<rparr> else vector xs)"
  by (simp add: squeeze_def vector_def)

lemma single_group_vector:
  assumes "length bs \<noteq> 1" "sigma_conforms (length bs) Sigma_x"
  shows "single_group erfinv a (vector bs) Sigma_x =
          (if \<bar>a\<bar> < DELTA_MAX erfinv
           then Inr (Finite 0,
                     fdiv (Finite (LOGITP0 + \<bar>a\<bar>))
                          (fmul (Finite (ERFINVGAMMA0 erfinv * sqrt 2))
                                (fsqrt (Finite (row_q Sigma_x bs)))))
           else Inr (fdiv (Finite ((if a > 0 then DELTA_MAX erfinv else - DELTA_MAX erfinv) - a))
                          (Finite (sum_list bs)),
                     fdiv (Finite SIGMA_F0) (fsqrt (Finite (row_q Sigma_x bs)))))"
  using assms
  by (simp add: single_group_def Let_def vector_def ndim_def scaled_sqrt
      del: fdiv.simps fmul.simps fsqrt.simps)

lemma single_group_scalar:
  "single_group erfinv a \<lparr>shape = [], data = [b]\<rparr> Sigma_x =
          (if \<bar>a\<bar> < DELTA_MAX erfinv
           then Inr (Finite 0,
                     fdiv (Finite (LOGITP0 + \<bar>a\<bar>))
                          (fmul (Finite (ERFINVGAMMA0 erfinv * sqrt 2)) (Finite \<bar>b\<bar>)))
           else Inr (fdiv (Finite ((if a > 0 then DELTA_MAX erfinv else - DELTA_MAX erfinv) - a))
                          (Finite b),
                     fdiv (Finite SIGMA_F0) (Finite \<bar>b\<bar>)))"
  by (simp add: single_group_def Let_def ndim_def mult.assoc del: fdiv.simps)

lemma classification_scalar_alpha:
  assumes "ndim beta \<le> 1" "\<not> sigma_with_1d beta Sigma_x"
  shows "calc_input_param_classification erfinv strict bdt sdt (scalar a) beta Sigma_x =
          (case single_group erfinv a (squeeze beta) Sigma_x of
             Inl e \<Rightarrow> Inl e
           | Inr (mu_x, sigma_x) \<Rightarrow> Inr (scalar mu_x, scalar sigma_x))"
  using assms
  by (simp add: calc_input_param_classification_def Let_def group_count_def scalar_output_def
        ndim_def scalar_def split: sum.splits prod.splits)

lemma length_concat_replicate: "length (concat (replicate n xs)) = n * length xs"
  by (induction n) simp_all

lemma take_drop_concat_replicate:
  assumes "r < J"
  shows "take (length b) (drop (r * length b) (concat (replicate J b))) = b"
proof -
  have "replicate J b = replicate r b @ b # replicate (J - Suc r) b"
    using assms by (metis Suc_diff_Suc add_Suc_right le_add_diff_inverse less_imp_le_nat
        replicate_Suc replicate_add)
  then have "concat (replicate J b) = concat (replicate r b) @ b @ concat (replicate (J - Suc r) b)"
    by simp
  then show ?thesis by (simp add: length_concat_replicate)
qed

lemma rows_of_matrix_replicate:
  "rows_of (matrix (length b) (replicate J b)) = replicate J b"
proof -
  have "map (\<lambda>r. take (length b) (drop (r * length b) (concat (replicate J b)))) [0..<J]
        = map (\<lambda>r. b) [0..<J]"
    by (rule map_cong[OF refl]) (simp add: take_drop_concat_replicate)
  then show ?thesis
    by (simp add: rows_of_def matrix_def map_replicate_const)
qed

lemma concat_replicate_single: "concat (replicate J [x]) = replicate J x"
  by (induction J) simp_all

lemma both_varying_replicate:
  assumes "length b \<noteq> 1 \<longrightarrow> sigma_conforms (length b) Sigma_x"
  shows "both_varying erfinv J (vector (replicate J a)) (matrix (length b) (replicate J b)) Sigma_x
         = Inr (vector (replicate J (fst (group_result erfinv a b Sigma_x))),
                vector (replicate J (snd (group_result erfinv a b Sigma_x))))"
proof -
  define beta where "beta = matrix (length b) (replicate J b)"
  define alpha where "alpha = vector (replicate J a)"
  have D: "shape beta ! 1 = length b" "hd (shape beta) = J" by (simp_all add: beta_def matrix_def)
  have rows: "rows_of beta = replicate J b"
    unfolding beta_def by (rule rows_of_matrix_replicate)
  have data1: "length b = 1 \<Longrightarrow> data beta = replicate J (hd b)"
    unfolding beta_def by (cases b) (simp_all add: matrix_def concat_replicate_single)
  have al: "j < J \<Longrightarrow> data alpha ! j = a" for j by (simp add: alpha_def vector_def)
  have groups: "map (\<lambda>j. threshold_group erfinv (data alpha ! j)
                   (map sum_list (rows_of beta) ! j)
                   ((if length b \<noteq> 1
                     then map (\<lambda>b. fsqrt (Finite (row_q Sigma_x b))) (rows_of beta)
                     else map (\<lambda>x. Finite \<bar>x\<bar>) (data beta)) ! j)
                   (map (\<lambda>s. fmul (Finite (sqrt 2 * ERFINVGAMMA0 erfinv)) s)
                      (if length b \<noteq> 1
                       then map (\<lambda>b. fsqrt (Finite (row_q Sigma_x b))) (rows_of beta)
                       else map (\<lambda>x. Finite \<bar>x\<bar>) (data beta)) ! j)) [0..<J]
        = replicate J (group_result erfinv a b Sigma_x)"
  proof -
    have "map (\<lambda>j. threshold_group erfinv (data alpha ! j)
                   (map sum_list (rows_of beta) ! j)
                   ((if length b \<noteq> 1
                     then map (\<lambda>b. fsqrt (Finite (row_q Sigma_x b))) (rows_of beta)
                     else map (\<lambda>x. Finite \<bar>x\<bar>) (data beta)) ! j)
                   (map (\<lambda>s. fmul (Finite (sqrt 2 * ERFINVGAMMA0 erfinv)) s)
                      (if length b \<noteq> 1
                       then map (\<lambda>b. fsqrt (Finite (row_q Sigma_x b))) (rows_of beta)
                       else map (\<lambda>x. Finite \<bar>x\<bar>) (data beta)) ! j)) [0..<J]
        = map (\<lambda>j. group_result erfinv a b Sigma_x) [0..<J]"
    proof (cases "length b = 1")
      case True
      show ?thesis
        by (rule map_cong[OF refl])
           (use True in \<open>simp add: data1[OF True] rows al group_result_def
              slope_magnitude_def del: fmul.simps\<close>)
    next
      case False
      show ?thesis
        by (rule map_cong[OF refl])
           (use False in \<open>simp add: rows al group_result_def
              slope_magnitude_def del: fmul.simps fsqrt.simps\<close>)
    qed
    then show ?thesis by (simp only: map_replicate_const length_upt diff_zero)
  qed
  have "both_varying erfinv J alpha beta Sigma_x
         = Inr (vector (replicate J (fst (group_result erfinv a b Sigma_x))),
                vector (replicate J (snd (group_result erfinv a b Sigma_x))))"
    unfolding both_varying_def Let_def D groups
    using assms by (auto simp: vector_def)
  then show ?thesis unfolding beta_def alpha_def .
qed

lemma classification_input_dimension:
  "ndim alpha \<le> 1 \<Longrightarrow> ndim beta \<le> 2 \<Longrightarrow> sigma_with_1d beta Sigma_x \<Longrightarrow>
   calc_input_param_classification erfinv strict bdt sdt alpha beta Sigma_x = Inl InputDimension"
  by (simp add: calc_input_param_classification_def Let_def)

lemma threshold_group_eq:
  "threshold_group erfinv a sbeta ssbeta (fmul (Finite (sqrt 2 * ERFINVGAMMA0 erfinv)) ssbeta) =
     (if \<bar>a\<bar> < DELTA_MAX erfinv
      then (Finite 0, fdiv (Finite (LOGITP0 + \<bar>a\<bar>))
                         (fmul (Finite (ERFINVGAMMA0 erfinv * sqrt 2)) ssbeta))
      else (fdiv (Finite ((if a > 0 then DELTA_MAX erfinv else - DELTA_MAX erfinv) - a))
                 (Finite sbeta),
            fdiv (Finite SIGMA_F0) ssbeta))"
  by (simp add: threshold_group_def mult.commute del: fdiv.simps fmul.simps)

lemma single_vector_result:
  assumes "\<not> sigma_with_1d (vector b) Sigma_x"
  shows "calc_input_param_classification erfinv strict bdt sdt (scalar a) (vector b) Sigma_x =
          (if length b \<noteq> 1 \<and> \<not> sigma_conforms (length b) Sigma_x then Inl ShapesNotAligned
           else Inr (scalar (fst (group_result erfinv a b Sigma_x)),
                     scalar (snd (group_result erfinv a b Sigma_x))))"
proof -
  have r: "ndim (vector b) \<le> 1" by (simp add: ndim_def vector_def)
  note calc = classification_scalar_alpha[OF r assms]
  consider (one) "length b = 1" | (bad) "length b \<noteq> 1" "\<not> sigma_conforms (length b) Sigma_x"
    | (good) "length b \<noteq> 1" "sigma_conforms (length b) Sigma_x" by blast
  then show ?thesis
  proof cases
    case one
    then obtain x where x: "b = [x]" by (cases b) auto
    have sq: "squeeze (vector [x]) = \<lparr>shape = [], data = [x]\<rparr>"
      by (simp add: squeeze_def vector_def)
    show ?thesis
      unfolding calc unfolding x sq single_group_scalar group_result_def threshold_group_eq
      by (simp add: slope_magnitude_def del: fdiv.simps fmul.simps)
  next
    case bad
    have sq: "squeeze (vector b) = vector b" using bad(1) by (simp add: squeeze_vector)
    have "single_group erfinv a (vector b) Sigma_x = Inl ShapesNotAligned"
      using bad by (simp add: single_group_def vector_def ndim_def)
    then show ?thesis unfolding calc sq using bad by simp
  next
    case good
    have sq: "squeeze (vector b) = vector b" using good(1) by (simp add: squeeze_vector)
    show ?thesis
      unfolding calc sq single_group_vector[OF good] group_result_def threshold_group_eq
      using good by (simp add: slope_magnitude_def del: fdiv.simps fmul.simps fsqrt.simps)
  qed
qed

lemma multi_replicate_result:
  assumes "J \<noteq> 1" "\<not> sigma_with_1d (matrix (length b) (replicate J b)) Sigma_x"
  shows "calc_input_param_classification erfinv strict bdt sdt (vector (replicate J a))
           (matrix (length b) (replicate J b)) Sigma_x =
          (if length b \<noteq> 1 \<and> \<not> sigma_conforms (length b) Sigma_x then Inl ShapesNotAligned
           else Inr (vector (replicate J (fst (group_result erfinv a b Sigma_x))),
                     vector (replicate J (snd (group_result erfinv a b Sigma_x)))))"
proof -
  define beta where "beta = matrix (length b) (replicate J b)"
  define alpha where "alpha = vector (replicate J a)"
  have sh: "shape alpha = [J]" "shape beta = [J, length b]"
    by (simp_all add: alpha_def beta_def vector_def matrix_def)
  have sq: "squeeze alpha = alpha" using assms(1) by (simp add: alpha_def squeeze_vector)
  have no: "\<not> sigma_with_1d beta Sigma_x" using assms(2) by (simp add: beta_def)
  have calc: "calc_input_param_classification erfinv strict bdt sdt alpha beta Sigma_x
                = both_varying erfinv J alpha beta Sigma_x"
    using assms(1) no
    by (simp add: calc_input_param_classification_def Let_def group_count_def ndim_def sh sq)
  show ?thesis
  proof (cases "length b \<noteq> 1 \<and> \<not> sigma_conforms (length b) Sigma_x")
    case True
    have "both_varying erfinv J alpha beta Sigma_x = Inl ShapesNotAligned"
      using True by (simp add: both_varying_def Let_def sh)
    then show ?thesis using True calc by (simp add: alpha_def beta_def)
  next
    case False
    then have c: "length b \<noteq> 1 \<longrightarrow> sigma_conforms (length b) Sigma_x" by blast
    show ?thesis
      using calc False both_varying_replicate[OF c, of erfinv J a]
      by (simp add: alpha_def beta_def)
  qed
qed

lemma scalar_beta_as_vector:
  "calc_input_param_classification erfinv strict bdt sdt (scalar a) (scalar b) Sigma_x
     = calc_input_param_classification erfinv strict bdt sdt (scalar a) (vector [b]) Sigma_x"
proof (cases "Sigma_x = None")
  case True
  have r: "ndim (scalar b) \<le> 1" "\<not> sigma_with_1d (scalar b) None"
          "ndim (vector [b]) \<le> 1" "\<not> sigma_with_1d (vector [b]) None"
    by (simp_all add: ndim_def scalar_def vector_def sigma_with_1d_def)
  have "squeeze (scalar b) = squeeze (vector [b])"
    by (simp add: squeeze_def scalar_def vector_def)
  then show ?thesis
    unfolding True classification_scalar_alpha[OF r(1,2)] classification_scalar_alpha[OF r(3,4)]
    by simp
next
  case False
  then have "sigma_with_1d (scalar b) Sigma_x" "sigma_with_1d (vector [b]) Sigma_x"
    by (simp_all add: sigma_with_1d_def ndim_def scalar_def vector_def)
  then show ?thesis
    by (simp add: classification_input_dimension ndim_def scalar_def vector_def)
qed

lemma repeat_consistency:
  assumes "J \<noteq> 1"
  shows "calc_input_param_classification erfinv strict bdt sdt (vector (replicate J a))
           (matrix (length b) (replicate J b)) Sigma_x
         = repeat_result J (calc_input_param_classification erfinv strict bdt sdt (scalar a) (vector b) Sigma_x)"
proof (cases "sigma_with_1d (vector b) Sigma_x")
  case True
  then have m: "sigma_with_1d (matrix (length b) (replicate J b)) Sigma_x"
    by (simp add: sigma_with_1d_def ndim_def vector_def matrix_def)
  show ?thesis
    using True m
    by (simp add: classification_input_dimension ndim_def scalar_def vector_def matrix_def
          repeat_result_def)
next
  case False
  then have m: "\<not> sigma_with_1d (matrix (length b) (replicate J b)) Sigma_x"
    by (simp add: sigma_with_1d_def ndim_def vector_def matrix_def)
  show ?thesis
    unfolding single_vector_result[OF False] multi_replicate_result[OF assms m]
    by (simp add: repeat_result_def scalar_def)
qed

lemma sqrt_25: "sqrt 25 = 5"
  by (rule real_sqrt_unique) (simp_all add: power2_eq_square)



















lemma raised_simps [simp]: "raised (Inl e) = Some e" "raised (Inr v) = None"
  by (simp_all add: raised_def)
















subsection \<open>Rounding to float64\<close>

lemma pow2_powr: "pow2 k = 2 powr (of_int k)"
proof (cases "0 \<le> k")
  case True
  have "(2::real) ^ nat k = 2 powr real (nat k)" by (simp add: powr_realpow)
  moreover have "real (nat k) = of_int k" using True by simp
  ultimately show ?thesis using True by (simp add: pow2_def)
next
  case False
  have "(2::real) ^ nat (- k) = 2 powr real (nat (- k))" by (simp add: powr_realpow)
  moreover have "real (nat (- k)) = - of_int k" using False by simp
  ultimately have "(2::real) ^ nat (- k) = 2 powr (- of_int k)" by simp
  then show ?thesis using False by (simp add: pow2_def powr_minus field_simps)
qed

lemma pow2_pos: "0 < pow2 k"
  by (simp add: pow2_powr)

lemma exponent_eq:
  assumes "pow2 e \<le> \<bar>x\<bar>" "\<bar>x\<bar> < pow2 (e + 1)"
  shows "exponent x = e"
proof -
  have pos: "0 < \<bar>x\<bar>" using assms(1) pow2_pos[of e] by linarith
  have "\<lfloor>log 2 \<bar>x\<bar>\<rfloor> = e \<longleftrightarrow> 2 powr (of_int e) \<le> \<bar>x\<bar> \<and> \<bar>x\<bar> < 2 powr (of_int (e + 1))"
    using floor_log_eq_powr_iff[of "\<bar>x\<bar>" 2 e] pos by simp
  then show ?thesis using assms by (simp add: exponent_def pow2_powr)
qed

lemma round_half_even_eq:
  assumes "\<bar>y - of_int m\<bar> < 1/2"
  shows "round_half_even y = m"
proof (cases "of_int m \<le> y")
  case True
  then have f: "\<lfloor>y\<rfloor> = m" using assms by (simp add: floor_unique abs_if split: if_splits)
  show ?thesis using assms True by (simp add: round_half_even_def Let_def f)
next
  case False
  then have f: "\<lfloor>y\<rfloor> = m - 1" using assms by (intro floor_unique) (simp_all add: abs_if split: if_splits)
  show ?thesis using assms False by (simp add: round_half_even_def Let_def f abs_if split: if_splits)
qed

lemma fl_unique:
  assumes "pow2 (k + 52) \<le> \<bar>x\<bar>" "\<bar>x\<bar> < pow2 (k + 53)"
    and "\<bar>x / pow2 k - of_int m\<bar> < 1/2"
  shows "fl x = of_int m * pow2 k"
proof -
  have e: "exponent x = k + 52"
    using exponent_eq[of "k + 52" x] assms(1,2) by (simp add: add.commute add.left_commute)
  have nz: "x \<noteq> 0" using assms(1) pow2_pos[of "k + 52"] by auto
  show ?thesis
    using nz by (simp add: fl_def e round_half_even_eq[OF assms(3)])
qed

lemma fl_1: "fl 1 = 1"
  using fl_unique[of "- 52" 1 "2 ^ 52"] by (simp add: pow2_def)

lemma fl_2: "fl 2 = 2"
  using fl_unique[of "- 51" 2 "2 ^ 52"] by (simp add: pow2_def)

lemma fl_4: "fl 4 = 4"
  using fl_unique[of "- 50" 4 "2 ^ 52"] by (simp add: pow2_def)

lemma fl_sqrt2: "fl (sqrt 2) = 6369051672525773 / 2 ^ 52"
proof -
  have lo: "(6369051672525773 - 1/2) / 2 ^ 52 < sqrt 2"
    by (rule real_less_rsqrt) (simp add: power2_eq_square)
  have hi: "sqrt 2 < (6369051672525773 + 1/2) / 2 ^ 52"
    by (rule real_less_lsqrt) (simp_all add: power2_eq_square)
  have b1: "pow2 (- 52 + 52) \<le> \<bar>sqrt 2\<bar>" using lo by (simp add: pow2_def)
  have b2: "\<bar>sqrt 2\<bar> < pow2 (- 52 + 53)" using hi by (simp add: pow2_def)
  define t where "t = sqrt 2 * 2 ^ 52"
  have pos: "(0::real) < 2 ^ 52" by simp
  have l: "6369051672525773 - 1/2 < t"
    using lo unfolding t_def pos_divide_less_eq[OF pos] .
  have h: "t < 6369051672525773 + 1/2"
    using hi unfolding t_def pos_less_divide_eq[OF pos] .
  have e: "sqrt 2 / pow2 (- 52) = t" by (simp add: pow2_def t_def)
  have c: "\<bar>sqrt 2 / pow2 (- 52) - of_int 6369051672525773\<bar> < 1/2"
    unfolding e using l h by linarith
  show ?thesis using fl_unique[OF b1 b2 c] by (simp add: pow2_def)
qed

lemma fl_L: "fl L64 = L64"
  using fl_unique[of "- 52" L64 "- 6243314768165359"] by (simp add: pow2_def L64_def)

lemma fl_2E: "fl (E64 * 2) = - 7408314909018296 / 2 ^ 51"
  using fl_unique[of "- 51" "E64 * 2" "- 7408314909018296"] by (simp add: pow2_def E64_def)

lemma fl_q1: "fl (L64 / (- 7408314909018296 / 2 ^ 51)) = 7590765351844950 / 2 ^ 54"
  using fl_unique[of "- 54" "L64 / (- 7408314909018296 / 2 ^ 51)" "7590765351844950"]
  by (simp add: pow2_def L64_def)

lemma fl_p: "fl (6369051672525773 / 2 ^ 52 * E64) = - 5238469709332238 / 2 ^ 51"
  using fl_unique[of "- 51" "6369051672525773 / 2 ^ 52 * E64" "- 5238469709332238"]
  by (simp add: pow2_def E64_def)

lemma fl_d: "fl (- 5238469709332238 / 2 ^ 51 * (6369051672525773 / 2 ^ 52))
               = - 7408314909018297 / 2 ^ 51"
  using fl_unique[of "- 51" "- 5238469709332238 / 2 ^ 51 * (6369051672525773 / 2 ^ 52)"
          "- 7408314909018297"]
  by (simp add: pow2_def)

lemma fl_q2: "fl (L64 / (- 7408314909018297 / 2 ^ 51)) = 7590765351844948 / 2 ^ 54"
  using fl_unique[of "- 54" "L64 / (- 7408314909018297 / 2 ^ 51)" "7590765351844948"]
  by (simp add: pow2_def L64_def)

lemma fl_quarter_sqrt2: "fl (6369051672525773 / 2 ^ 52 * SIGMA_F0) = 6369051672525773 / 2 ^ 54"
  using fl_unique[of "- 54" "6369051672525773 / 2 ^ 52 * SIGMA_F0" "6369051672525773"]
  by (simp add: pow2_def SIGMA_F0_def)

lemma fl_t: "fl (6369051672525773 / 2 ^ 54 * E64) = - 5238469709332238 / 2 ^ 53"
  using fl_unique[of "- 53" "6369051672525773 / 2 ^ 54 * E64" "- 5238469709332238"]
  by (simp add: pow2_def E64_def)

lemma fl_DELTA_MAX: "fl (- 5238469709332238 / 2 ^ 53 - L64) = 7248159826998480 / 2 ^ 53"
  using fl_unique[of "- 53" "- 5238469709332238 / 2 ^ 53 - L64" "7248159826998480"]
  by (simp add: pow2_def L64_def)

lemma rnd_sum_sq_ones: "rnd_sum_sq fl [1, 1] = 2"
  by (simp add: rnd_sum_sq_def rnd_sum_def fl_1 fl_2)

lemma sigma_x_single_f64:
  "sigma_x_single_rnd fl E64 L64 0 [1, 1] = 7590765351844950 / 2 ^ 54"
proof -
  have a: "(2::real) * 2 = 4" "\<bar>0::real\<bar> = 0" "L64 + 0 = L64" "sqrt 4 = 2" by simp_all
  show ?thesis
    unfolding sigma_x_single_rnd_def Let_def rnd_sum_sq_ones a fl_4 fl_2 fl_L fl_2E fl_q1 ..
qed

lemma sigma_x_group_f64:
  "sigma_x_group_rnd fl E64 L64 0 [1, 1] = 7590765351844948 / 2 ^ 54"
proof -
  have a: "\<bar>0::real\<bar> = 0" "L64 + 0 = L64" by simp_all
  show ?thesis
    unfolding sigma_x_group_rnd_def Let_def rnd_sum_sq_ones a fl_sqrt2 fl_L fl_p fl_d fl_q2 ..
qed

lemma DELTA_MAX_f64: "DELTA_MAX_rnd fl E64 L64 = 7248159826998480 / 2 ^ 53"
  unfolding DELTA_MAX_rnd_def fl_sqrt2 fl_quarter_sqrt2 fl_t fl_DELTA_MAX ..

text \<open>Without rounding the two computations are those of the model.\<close>

lemma rnd_sum_exact: "foldl (\<lambda>s x. s + x) a xs = a + sum_list xs" for a :: real
  by (induction xs arbitrary: a) simp_all

lemma rnd_sum_sq_exact: "rnd_sum_sq (\<lambda>x. x) b = sum_sq b"
  by (simp add: rnd_sum_sq_def rnd_sum_def sum_sq_def rnd_sum_exact)

lemma sigma_x_rnd_exact:
  "sigma_x_single_rnd (\<lambda>x. x) E L a b = (L + \<bar>a\<bar>) / (E * sqrt 2 * sqrt (sum_sq b))"
  "sigma_x_group_rnd (\<lambda>x. x) E L a b = (L + \<bar>a\<bar>) / (E * sqrt 2 * sqrt (sum_sq b))"
  by (simp_all add: sigma_x_single_rnd_def sigma_x_group_rnd_def rnd_sum_sq_exact
        real_sqrt_mult mult.commute mult.left_commute)

lemma group_result_exact:
  assumes "\<bar>a\<bar> < DELTA_MAX erfinv" "length b \<noteq> 1" "ERFINVGAMMA0 erfinv \<noteq> 0" "sum_sq b \<noteq> 0"
  shows "group_result erfinv a b None
           = (Finite 0, Finite ((LOGITP0 + \<bar>a\<bar>) / (ERFINVGAMMA0 erfinv * sqrt 2 * sqrt (sum_sq b))))"
proof -
  have pos: "0 < sum_sq b" using assms(4) sum_sq_nonneg[of b] by simp
  have sm: "slope_magnitude None b = Finite (sqrt (sum_sq b))"
    using assms(2) pos by (simp add: slope_magnitude_def row_q_def)
  have nz: "ERFINVGAMMA0 erfinv * sqrt 2 * sqrt (sum_sq b) \<noteq> 0"
    using assms(3) pos by simp
  show ?thesis
    unfolding group_result_def threshold_group_eq sm using assms(1) nz by simp
qed

lemma single_call_exact:
  assumes "\<bar>a\<bar> < DELTA_MAX erfinv" "length b \<noteq> 1" "ERFINVGAMMA0 erfinv \<noteq> 0" "sum_sq b \<noteq> 0"
  shows "calc_input_param_classification erfinv strict bdt sdt (scalar a) (vector b) None
           = Inr (scalar (Finite 0),
                  scalar (Finite (sigma_x_single_rnd (\<lambda>x. x) (ERFINVGAMMA0 erfinv) LOGITP0 a b)))"
proof -
  have no: "\<not> sigma_with_1d (vector b) None" by (simp add: sigma_with_1d_def)
  show ?thesis
    unfolding single_vector_result[OF no] group_result_exact[OF assms] sigma_x_rnd_exact
    by (simp add: sigma_conforms_def)
qed

lemma multi_call_exact:
  assumes "\<bar>a\<bar> < DELTA_MAX erfinv" "length b \<noteq> 1" "ERFINVGAMMA0 erfinv \<noteq> 0" "sum_sq b \<noteq> 0"
    and "J \<noteq> 1"
  shows "calc_input_param_classification erfinv strict bdt sdt (vector (replicate J a))
           (matrix (length b) (replicate J b)) None
           = Inr (vector (replicate J (Finite 0)),
                  vector (replicate J
                    (Finite (sigma_x_group_rnd (\<lambda>x. x) (ERFINVGAMMA0 erfinv) LOGITP0 a b))))"
  unfolding repeat_consistency[OF assms(5)] single_call_exact[OF assms(1-4)] sigma_x_rnd_exact
  by (simp add: repeat_result_def scalar_def)

section \<open>Claims about calc\_input\_param\_lin\_reg\<close>

text \<open>
  Claim C6. The claim is about every one-dimensional input. It holds when \<open>beta\<close> is an
  array of floats (lemma \<open>lin_reg_one_dimensional\<close> below), and the code breaks it when
  \<open>beta\<close> is made of integers: \<open>out = np.asarray(np.abs(beta))\<close> is then an integer array
  and \<open>np.divide(..., out, out=out)\<close> raises instead of returning \<open>0.5\<close> for the slope \<open>2\<close>
  and \<open>sigma = 1.0\<close>, given as the integer \<open>2\<close>, as the array \<open>[2]\<close> or as the matrix
  \<open>[[2]]\<close>. The same slope given as a float returns \<open>0.5\<close>.
\<close>

theorem C6_integer_beta:
  "calc_input_param_lin_reg Int64 sdt (scalar 2) 1 None = Inl CastingError \<and>
   calc_input_param_lin_reg Int64 sdt (vector [2]) 1 None = Inl CastingError \<and>
   calc_input_param_lin_reg Int64 sdt (matrix 1 [[2]]) 1 None = Inl CastingError \<and>
   calc_input_param_lin_reg Float64 sdt (scalar 2) 1 None = Inr (scalar (Finite 0.5)) \<and>
   calc_input_param_lin_reg Float64 sdt (vector [2]) 1 None = Inr (scalar (Finite 0.5)) \<and>
   calc_input_param_lin_reg Float64 sdt (matrix 1 [[2]]) 1 None = Inr (vector [Finite 0.5])"
  by (simp add: calc_input_param_lin_reg_def sigma_with_1d_def scalar_def vector_def matrix_def
        ndim_def c_const)

text \<open>
  For an array of floats the one-dimensional branch computes what the claim says: for a
  nonzero slope \<open>b\<close>, given as a scalar, as an array \<open>[b]\<close> of length one or as one row of
  a \<open>J\<close> by \<open>1\<close> matrix, called without \<open>Sigma_x\<close>, the function returns
  \<open>sqrt (R_SQUARED / (1 - R_SQUARED)) * sigma / |b|\<close>, for each group when the slopes are a
  matrix.
\<close>

lemma lin_reg_one_dimensional:
  "(b \<noteq> 0 \<longrightarrow> calc_input_param_lin_reg Float64 sdt (scalar b) sigma None
       = Inr (scalar (Finite (sqrt (R_SQUARED / (1 - R_SQUARED)) * sigma / \<bar>b\<bar>)))) \<and>
   (b \<noteq> 0 \<longrightarrow> calc_input_param_lin_reg Float64 sdt (vector [b]) sigma None
       = Inr (scalar (Finite (sqrt (R_SQUARED / (1 - R_SQUARED)) * sigma / \<bar>b\<bar>)))) \<and>
   (list_all (\<lambda>x. x \<noteq> 0) bs \<longrightarrow>
      calc_input_param_lin_reg Float64 sdt (matrix 1 (map (\<lambda>x. [x]) bs)) sigma None
       = Inr (vector (map (\<lambda>x. Finite (sqrt (R_SQUARED / (1 - R_SQUARED)) * sigma / \<bar>x\<bar>)) bs))) \<and>
   calc_input_param_lin_reg Float64 sdt (scalar 2) 1 None = Inr (scalar (Finite 0.5))"
proof (intro conjI impI)
  assume "b \<noteq> 0"
  then show "calc_input_param_lin_reg Float64 sdt (scalar b) sigma None
       = Inr (scalar (Finite (sqrt (R_SQUARED / (1 - R_SQUARED)) * sigma / \<bar>b\<bar>)))"
    by (simp add: calc_input_param_lin_reg_def sigma_with_1d_def scalar_def ndim_def)
next
  assume "b \<noteq> 0"
  then show "calc_input_param_lin_reg Float64 sdt (vector [b]) sigma None
       = Inr (scalar (Finite (sqrt (R_SQUARED / (1 - R_SQUARED)) * sigma / \<bar>b\<bar>)))"
    by (simp add: calc_input_param_lin_reg_def sigma_with_1d_def scalar_def vector_def ndim_def)
next
  assume nz: "list_all (\<lambda>x. x \<noteq> 0) bs"
  have "map (\<lambda>x. fdiv (Finite (sqrt (R_SQUARED / (1 - R_SQUARED)) * sigma)) (Finite x)) (map abs bs)
        = map (\<lambda>x. Finite (sqrt (R_SQUARED / (1 - R_SQUARED)) * sigma / \<bar>x\<bar>)) bs"
    using nz by (induction bs) simp_all
  then show "calc_input_param_lin_reg Float64 sdt (matrix 1 (map (\<lambda>x. [x]) bs)) sigma None
       = Inr (vector (map (\<lambda>x. Finite (sqrt (R_SQUARED / (1 - R_SQUARED)) * sigma / \<bar>x\<bar>)) bs))"
    by (simp add: calc_input_param_lin_reg_def sigma_with_1d_def matrix_def vector_def ndim_def
        Let_def)
next
  show "calc_input_param_lin_reg Float64 sdt (scalar 2) 1 None = Inr (scalar (Finite 0.5))"
    by (simp add: calc_input_param_lin_reg_def sigma_with_1d_def scalar_def ndim_def c_const)
qed


text \<open>
  Claim C7. The claim is about every \<open>beta\<close> with more than one input dimension. It holds
  when \<open>beta\<close> is an array of floats (lemma \<open>lin_reg_identity_sigma\<close> below), and the code
  breaks it when \<open>beta\<close> is made of integers: without \<open>Sigma_x\<close> the sum of squares is an
  integer array and \<open>out *= 1 - R_SQUARED\<close> raises, while with the identity matrix
  \<open>np.eye(D)\<close> as \<open>Sigma_x\<close> the product \<open>beta.dot(Sigma_x)\<close> is an array of floats and the
  call returns. At \<open>beta = [3, 4]\<close>, \<open>sigma = 2\<close> the call with the identity returns \<open>0.4\<close>
  and the call without \<open>Sigma_x\<close> raises; both return \<open>0.4\<close> for the floats \<open>[3.0, 4.0]\<close>.
\<close>

theorem C7_integer_beta:
  "calc_input_param_lin_reg Int64 Float64 (vector [3, 4]) 2 None = Inl CastingError \<and>
   calc_input_param_lin_reg Int64 Float64 (vector [3, 4]) 2 (Some (identity_matrix 2))
     = Inr (scalar (Finite (2/5))) \<and>
   calc_input_param_lin_reg Float64 Float64 (vector [3, 4]) 2 None = Inr (scalar (Finite (2/5))) \<and>
   calc_input_param_lin_reg Float64 Float64 (vector [3, 4]) 2 (Some (identity_matrix 2))
     = Inr (scalar (Finite (2/5)))"
proof -
  have id2: "identity_matrix 2 = [[1, 0], [0, 1]]"
    by (simp add: identity_matrix_def upt_rec)
  have q: "quad_form [[1, 0], [0, 1]] [3, 4] = 25"
    by (simp add: quad_form_def dot_row_def upt_rec)
  have v: "lin_reg_row 2 25 = Finite (2/5)"
    by (simp add: lin_reg_row_def R_SQUARED_def sqrt_1_25)
  show ?thesis
    unfolding id2
    by (simp add: calc_input_param_lin_reg_def sigma_with_1d_def vector_def scalar_def ndim_def
          sigma_conforms_def conforms_def row_q_dtype_def result_type_def rows_of_def row_q_def
          sum_sq_def q v)
qed

text \<open>
  For an array of floats the claim holds: for a well-formed \<open>beta\<close> of rank at least one
  whose input dimension \<open>D\<close> (the length of the last axis) exceeds one, and for every
  \<open>sigma\<close>, the call with the \<open>D\<close> by \<open>D\<close> identity as \<open>Sigma_x\<close> returns what the call without
  \<open>Sigma_x\<close> returns, and that is \<open>sigma * sqrt (R_SQUARED / (q * (1 - R_SQUARED)))\<close> for
  every row, \<open>q\<close> being the sum of squares of the row; where \<open>q\<close> is not zero this is the
  finite real number of that formula.
\<close>

lemma lin_reg_identity_sigma:
  assumes "wf_ndarray beta" "shape beta \<noteq> []" "1 < last (shape beta)"
  shows "calc_input_param_lin_reg Float64 sdt beta sigma (Some (identity_matrix (last (shape beta))))
           = calc_input_param_lin_reg Float64 sdt beta sigma None \<and>
         calc_input_param_lin_reg Float64 sdt beta sigma None
           = Inr \<lparr>shape = butlast (shape beta),
                  data = map (\<lambda>b. fmul (Finite sigma)
                                  (fsqrt (fdiv (Finite R_SQUARED)
                                     (Finite (sum_sq b * (1 - R_SQUARED))))))
                             (rows_of beta)\<rparr> \<and>
         (\<forall>b\<in>set (rows_of beta). sum_sq b \<noteq> 0 \<longrightarrow>
            fmul (Finite sigma) (fsqrt (fdiv (Finite R_SQUARED) (Finite (sum_sq b * (1 - R_SQUARED)))))
              = Finite (sigma * sqrt (R_SQUARED / (sum_sq b * (1 - R_SQUARED)))))"
proof (intro conjI ballI impI)
  have nd: "ndim beta \<noteq> 0" using assms(2) by (simp add: ndim_def)
  have no1d: "\<not> sigma_with_1d beta S" for S
    using assms(3) nd by (simp add: sigma_with_1d_def)
  have rows: "map (\<lambda>b. lin_reg_row sigma (row_q (Some (identity_matrix (last (shape beta)))) b))
                  (rows_of beta)
            = map (\<lambda>b. lin_reg_row sigma (row_q None b)) (rows_of beta)"
  proof (rule map_cong[OF refl])
    fix b assume "b \<in> set (rows_of beta)"
    then have "length b = last (shape beta)" by (rule length_rows_of[OF assms(1,2)])
    then show "lin_reg_row sigma (row_q (Some (identity_matrix (last (shape beta)))) b)
             = lin_reg_row sigma (row_q None b)"
      using quad_form_identity[of b] by (simp add: row_q_def)
  qed
  show "calc_input_param_lin_reg Float64 sdt beta sigma (Some (identity_matrix (last (shape beta))))
           = calc_input_param_lin_reg Float64 sdt beta sigma None"
    using assms(3) nd rows
    by (simp add: calc_input_param_lin_reg_def no1d sigma_conforms_def conforms_identity
          row_q_dtype_def result_type_def)
  have comm: "lin_reg_row sigma (row_q None b)
      = fmul (Finite sigma) (fsqrt (fdiv (Finite R_SQUARED) (Finite (sum_sq b * (1 - R_SQUARED)))))"
    for b
    by (cases "fsqrt (fdiv (Finite R_SQUARED) (Finite (sum_sq b * (1 - R_SQUARED))))")
       (simp_all add: lin_reg_row_def row_q_def mult.commute)
  show "calc_input_param_lin_reg Float64 sdt beta sigma None
           = Inr \<lparr>shape = butlast (shape beta),
                  data = map (\<lambda>b. fmul (Finite sigma)
                                  (fsqrt (fdiv (Finite R_SQUARED)
                                     (Finite (sum_sq b * (1 - R_SQUARED))))))
                             (rows_of beta)\<rparr>"
    using assms(3) nd
    by (simp add: calc_input_param_lin_reg_def no1d sigma_conforms_def comm row_q_dtype_def)
next
  fix b assume "sum_sq b \<noteq> 0"
  then have "0 < sum_sq b" using sum_sq_nonneg[of b] by simp
  then show "fmul (Finite sigma) (fsqrt (fdiv (Finite R_SQUARED) (Finite (sum_sq b * (1 - R_SQUARED)))))
              = Finite (sigma * sqrt (R_SQUARED / (sum_sq b * (1 - R_SQUARED))))"
    by (simp add: R_SQUARED_def not_less)
qed

section \<open>Claims about the validation of the arguments\<close>




section \<open>Claims about calc\_input\_param\_classification\<close>

text \<open>
  Claim C2. A single group: \<open>alpha\<close> is a scalar \<open>a\<close> and \<open>beta\<close> is a scalar \<open>b\<close> (then \<open>bs\<close>
  is \<open>[b]\<close>) or a vector \<open>bs\<close>; \<open>Sigma_x\<close> is absent, or \<open>bs\<close> has more than one entry and
  \<open>Sigma_x\<close> is \<open>D\<close> by \<open>D\<close>. With \<open>s\<close> the magnitude of the slopes (\<open>slope_magnitude\<close>): if
  \<open>|a| < DELTA_MAX\<close> the function returns \<open>mu_x = 0\<close> and
  \<open>sigma_x = (LOGITP0 + |a|) / (ERFINVGAMMA0 * sqrt 2 * s)\<close>; otherwise it returns
  \<open>mu_x = (DELTA_MAX - a) / sum bs\<close> when \<open>a > 0\<close> and \<open>(- DELTA_MAX - a) / sum bs\<close> when not,
  and \<open>sigma_x = SIGMA_F0 / s\<close>. The divisions are numpy's: a zero divisor gives a value
  that is not finite.
\<close>

theorem C2_single_group:
  assumes beta: "beta = scalar b \<and> bs = [b] \<or> beta = vector bs"
    and sig: "Sigma_x = None \<or> 1 < length bs \<and> sigma_conforms (length bs) Sigma_x"
  shows "calc_input_param_classification erfinv strict bdt sdt (scalar a) beta Sigma_x =
          (if \<bar>a\<bar> < DELTA_MAX erfinv
           then Inr (scalar (Finite 0),
                     scalar (fdiv (Finite (LOGITP0 + \<bar>a\<bar>))
                               (fmul (Finite (ERFINVGAMMA0 erfinv * sqrt 2))
                                     (slope_magnitude Sigma_x bs))))
           else Inr (scalar (fdiv (Finite ((if a > 0 then DELTA_MAX erfinv else - DELTA_MAX erfinv) - a))
                                  (Finite (sum_list bs))),
                     scalar (fdiv (Finite SIGMA_F0) (slope_magnitude Sigma_x bs))))"
proof -
  consider (sc) "beta = scalar b" "bs = [b]" | (one) "beta = vector bs" "length bs = 1"
    | (many) "beta = vector bs" "length bs \<noteq> 1"
    using beta by blast
  then show ?thesis
  proof cases
    case sc
    then have S: "Sigma_x = None" using sig by auto
    have r: "ndim (scalar b) \<le> 1" "\<not> sigma_with_1d (scalar b) None"
      by (simp_all add: ndim_def scalar_def sigma_with_1d_def)
    have sq: "squeeze (scalar b) = \<lparr>shape = [], data = [b]\<rparr>"
      by (simp add: squeeze_def scalar_def)
    show ?thesis
      unfolding sc S classification_scalar_alpha[OF r] sq single_group_scalar
      by (simp add: slope_magnitude_def del: fdiv.simps fmul.simps)
  next
    case one
    then obtain x where x: "bs = [x]" by (cases bs) auto
    have S: "Sigma_x = None" using sig one by auto
    have r: "ndim (vector [x]) \<le> 1" "\<not> sigma_with_1d (vector [x]) None"
      by (simp_all add: ndim_def vector_def sigma_with_1d_def)
    have sq: "squeeze (vector [x]) = \<lparr>shape = [], data = [x]\<rparr>"
      by (simp add: squeeze_def vector_def)
    show ?thesis
      unfolding one(1) S x classification_scalar_alpha[OF r] sq single_group_scalar
      by (simp add: slope_magnitude_def del: fdiv.simps fmul.simps)
  next
    case many
    have conf: "sigma_conforms (length bs) Sigma_x" using sig by (auto simp: sigma_conforms_def)
    have r: "ndim (vector bs) \<le> 1" "\<not> sigma_with_1d (vector bs) Sigma_x"
      using sig by (auto simp: sigma_with_1d_def vector_def ndim_def)
    have sq: "squeeze (vector bs) = vector bs" using many(2) by (simp add: squeeze_vector)
    show ?thesis
      unfolding many(1) classification_scalar_alpha[OF r] sq single_group_vector[OF many(2) conf]
      using many(2) by (simp add: slope_magnitude_def del: fdiv.simps fmul.simps fsqrt.simps)
  qed
qed

text \<open>
  The theorem at \<open>alpha = 100\<close>, \<open>beta = 1\<close>, where the mean is shifted, and at \<open>alpha = 0\<close>,
  \<open>beta = 1\<close>, where it is not.
\<close>

theorem C2_single_group_witness:
  "calc_input_param_classification erfinv0 False Float64 Float64 (scalar 100) (scalar 1) None
     = Inr (scalar (Finite (DELTA_MAX erfinv0 - 100)), scalar (Finite SIGMA_F0)) \<and>
   calc_input_param_classification erfinv0 False Float64 Float64 (scalar 0) (scalar 1) None
     = Inr (scalar (Finite 0), scalar (Finite (LOGITP0 / (ERFINVGAMMA0 erfinv0 * sqrt 2))))"
proof -
  have big: "\<not> \<bar>100 :: real\<bar> < DELTA_MAX erfinv0" using DELTA_MAX_erfinv0(2) by simp
  have small: "\<bar>0 :: real\<bar> < DELTA_MAX erfinv0" using DELTA_MAX_erfinv0(1) by simp
  have nz: "ERFINVGAMMA0 erfinv0 * sqrt 2 \<noteq> 0" by (simp add: ERFINVGAMMA0_def erfinv0_def)
  have sm: "slope_magnitude None [1] = Finite 1" by (simp add: slope_magnitude_def)
  have a: "calc_input_param_classification erfinv0 False Float64 Float64 (scalar 100) (scalar 1) None
     = Inr (scalar (Finite (DELTA_MAX erfinv0 - 100)), scalar (Finite SIGMA_F0))"
    using C2_single_group[where beta = "scalar 1" and b = 1 and bs = "[1]" and Sigma_x = None
        and erfinv = erfinv0 and a = 100 and strict = False and bdt = Float64 and sdt = Float64] big
    by (simp add: sm)
  have b: "calc_input_param_classification erfinv0 False Float64 Float64 (scalar 0) (scalar 1) None
     = Inr (scalar (Finite 0), scalar (Finite (LOGITP0 / (ERFINVGAMMA0 erfinv0 * sqrt 2))))"
    using C2_single_group[where beta = "scalar 1" and b = 1 and bs = "[1]" and Sigma_x = None
        and erfinv = erfinv0 and a = 0 and strict = False and bdt = Float64 and sdt = Float64] small nz
    by (simp add: sm)
  show ?thesis using a b by simp
qed

text \<open>
  Claim C4, in exact arithmetic. For every scalar \<open>a0\<close>, every slope vector
  \<open>b0\<close> (or scalar slope \<open>b\<close>) and every \<open>J > 1\<close>: the call with \<open>alpha\<close> the vector of \<open>J\<close>
  entries \<open>a0\<close> and \<open>beta\<close> the \<open>J\<close> by \<open>D\<close> matrix whose rows are all \<open>b0\<close> returns \<open>J\<close>
  repetitions of what the single-group call with \<open>a0\<close> and \<open>b0\<close> returns, for \<open>mu_x\<close> and
  for \<open>sigma_x\<close>, with or without \<open>Sigma_x\<close>; and where the single call raises, this call
  raises the same error. The two calls do not compute \<open>sigma_x\<close> by the same operations
  (the single group divides by \<open>ERFINVGAMMA0 * sqrt(2 * q)\<close>, a group among several by
  \<open>sqrt(2) * ERFINVGAMMA0 * sqrt(q)\<close>), so the float64 results agree up to rounding only.
\<close>

theorem C4_multi_group_consistency:
  assumes "1 < J"
  shows "calc_input_param_classification erfinv strict bdt sdt (vector (replicate J a0))
           (matrix (length b0) (replicate J b0)) Sigma_x
         = repeat_result J (calc_input_param_classification erfinv strict bdt sdt (scalar a0) (vector b0) Sigma_x) \<and>
         calc_input_param_classification erfinv strict bdt sdt (vector (replicate J a0))
           (matrix 1 (replicate J [b])) Sigma_x
         = repeat_result J (calc_input_param_classification erfinv strict bdt sdt (scalar a0) (scalar b) Sigma_x)"
proof -
  have J: "J \<noteq> 1" using assms by simp
  have "calc_input_param_classification erfinv strict bdt sdt (vector (replicate J a0))
           (matrix (length [b]) (replicate J [b])) Sigma_x
         = repeat_result J (calc_input_param_classification erfinv strict bdt sdt (scalar a0) (vector [b]) Sigma_x)"
    by (rule repeat_consistency[OF J])
  then show ?thesis
    using repeat_consistency[OF J, where erfinv = erfinv and a = a0 and b = b0 and Sigma_x = Sigma_x
        and strict = strict and bdt = bdt and sdt = sdt]
    by (simp add: scalar_beta_as_vector)
qed

text \<open>
  The theorem at \<open>J = 2\<close>, \<open>a0 = 100\<close>, \<open>b0 = [3, 4]\<close>: both groups get the mean shift
  \<open>(DELTA_MAX - 100) / 7\<close> and the scale \<open>0.25 / 5\<close> of the single group.
\<close>

theorem C4_multi_group_consistency_witness:
  "(1::nat) < 2 \<and>
   calc_input_param_classification erfinv0 False Float64 Float64 (scalar 100) (vector [3, 4]) None
     = Inr (scalar (Finite ((DELTA_MAX erfinv0 - 100) / 7)), scalar (Finite (1/20))) \<and>
   calc_input_param_classification erfinv0 False Float64 Float64 (vector [100, 100]) (matrix 2 [[3, 4], [3, 4]]) None
     = Inr (vector [Finite ((DELTA_MAX erfinv0 - 100) / 7), Finite ((DELTA_MAX erfinv0 - 100) / 7)],
            vector [Finite (1/20), Finite (1/20)])"
proof -
  have big: "\<not> \<bar>100 :: real\<bar> < DELTA_MAX erfinv0" using DELTA_MAX_erfinv0(2) by simp
  have no: "\<not> sigma_with_1d (vector [3, 4]) None" by (simp add: sigma_with_1d_def)
  have gr: "group_result erfinv0 100 [3, 4] None
              = (Finite ((DELTA_MAX erfinv0 - 100) / 7), Finite (1/20))"
    unfolding group_result_def threshold_group_eq using big
    by (simp add: slope_magnitude_def row_q_def sum_sq_def sqrt_25 SIGMA_F0_def)
  have single: "calc_input_param_classification erfinv0 False Float64 Float64 (scalar 100) (vector [3, 4]) None
     = Inr (scalar (Finite ((DELTA_MAX erfinv0 - 100) / 7)), scalar (Finite (1/20)))"
    unfolding single_vector_result[OF no] gr by (simp add: sigma_conforms_def)
  have "calc_input_param_classification erfinv0 False Float64 Float64 (vector (replicate 2 100))
           (matrix (length [3, 4 :: real]) (replicate 2 [3, 4])) None
         = repeat_result 2 (calc_input_param_classification erfinv0 False Float64 Float64 (scalar 100) (vector [3, 4]) None)"
    using C4_multi_group_consistency[where J = 2 and erfinv = erfinv0 and ?a0.0 = 100 and ?b0.0 = "[3, 4]"
        and Sigma_x = None and strict = False and bdt = Float64 and sdt = Float64] by simp
  then have multi: "calc_input_param_classification erfinv0 False Float64 Float64 (vector [100, 100])
           (matrix 2 [[3, 4], [3, 4]]) None
     = Inr (vector [Finite ((DELTA_MAX erfinv0 - 100) / 7), Finite ((DELTA_MAX erfinv0 - 100) / 7)],
            vector [Finite (1/20), Finite (1/20)])"
    unfolding single by (simp add: repeat_result_def scalar_def numeral_2_eq_2)
  show ?thesis using single multi by simp
qed

text \<open>
  Claim C4 as the specification words it fails in float64. At \<open>alpha0 = 0\<close>, which is below the
  threshold, and \<open>beta0 = [1, 1]\<close> the single-group call returns
  \<open>sigma_x = 0.42137212340725705\<close> and every group of the call with several groups gets
  \<open>sigma_x = 0.42137212340725694\<close>, two float64 numbers apart by two units in the last
  place.
\<close>

theorem C4_counterexample:
  "\<bar>0\<bar> < DELTA_MAX_rnd fl E64 L64 \<and>
   sigma_x_single_rnd fl E64 L64 0 [1, 1] = 7590765351844950 / 2 ^ 54 \<and>
   sigma_x_group_rnd fl E64 L64 0 [1, 1] = 7590765351844948 / 2 ^ 54 \<and>
   sigma_x_single_rnd fl E64 L64 0 [1, 1] \<noteq> sigma_x_group_rnd fl E64 L64 0 [1, 1]"
  unfolding sigma_x_single_f64 sigma_x_group_f64 DELTA_MAX_f64 by simp







text \<open>
  The flag for plain scalars is the rank of the arguments, not their size: an \<open>alpha\<close>
  given as an array of length one gives arrays of length one also for a scalar \<open>beta\<close>,
  and a scalar \<open>alpha\<close> gives plain scalars also for a vector of two slopes.
\<close>

lemma scalar_output_by_rank:
  "scalar_output (vector [3/10]) (scalar 2) = False \<and>
   out_shape (vector [3/10]) (scalar 2) = [1] \<and>
   scalar_output (scalar (3/10)) (vector [1, 2]) = True \<and>
   out_shape (scalar (3/10)) (vector [1, 2]) = []"
  by (simp add: scalar_output_def out_shape_def group_count_def vector_def scalar_def ndim_def)

end
